theory Spec2Isabelle
  imports Complex_Main "HOL-Library.AList" "HOL-Library.Log_Nat" "HOL-Library.Multiset"
begin

section \<open>The tree renderer of \<^verbatim>\<open>chart_script.py\<close>: data model\<close>

text \<open>
  A node of the chart is a Python dictionary with the keys \<^verbatim>\<open>id\<close>, \<^verbatim>\<open>label\<close>,
  \<^verbatim>\<open>level\<close>, \<^verbatim>\<open>category\<close> and, for every node but the root, \<^verbatim>\<open>parent\<close>.
  The optional key is an \<open>option\<close>: \<^verbatim>\<open>node['parent']\<close> raises \<^verbatim>\<open>KeyError\<close> on
  \<open>None\<close>, \<^verbatim>\<open>node.get('parent')\<close> returns Python's \<^verbatim>\<open>None\<close>, and
  \<^verbatim>\<open>'parent' in node\<close> is false. Equality of two records is equality of the
  dictionaries.
\<close>

record node =
  node_id :: string
  label :: string
  level :: int
  category :: string
  parent :: "string option"

definition mk :: "string \<Rightarrow> string \<Rightarrow> int \<Rightarrow> string \<Rightarrow> string option \<Rightarrow> node" where
  "mk i l v c p = \<lparr>node_id = i, label = l, level = v, category = c, parent = p\<rparr>"

text \<open>The literal \<^verbatim>\<open>data['nodes']\<close> of lines 7 to 35, in the order of the source.\<close>

definition nodes :: "node list" where
  "nodes =
   [mk ''project'' ''project/'' 0 ''root'' None,
    mk ''claude'' ''.claude/'' 1 ''config'' (Some ''project''),
    mk ''workflows'' ''workflows/'' 1 ''process'' (Some ''project''),
    mk ''commands'' ''commands/'' 1 ''actions'' (Some ''project''),
    mk ''patterns'' ''patterns/'' 1 ''templates'' (Some ''project''),
    mk ''memory'' ''memory/'' 1 ''context'' (Some ''project''),
    mk ''shared'' ''shared/'' 1 ''utilities'' (Some ''project''),
    mk ''specialists'' ''specialists/'' 2 ''config'' (Some ''claude''),
    mk ''cognitive'' ''cognitive/'' 3 ''config'' (Some ''specialists''),
    mk ''technical'' ''technical/'' 3 ''config'' (Some ''specialists''),
    mk ''domain'' ''domain/'' 3 ''config'' (Some ''specialists''),
    mk ''orchestration_spec'' ''orchestration/'' 3 ''config'' (Some ''specialists''),
    mk ''development'' ''development/'' 2 ''process'' (Some ''workflows''),
    mk ''analysis'' ''analysis/'' 2 ''process'' (Some ''workflows''),
    mk ''operations'' ''operations/'' 2 ''process'' (Some ''workflows''),
    mk ''core'' ''core/'' 2 ''actions'' (Some ''commands''),
    mk ''specialized'' ''specialized/'' 2 ''actions'' (Some ''commands''),
    mk ''orchestration_cmd'' ''orchestration/'' 2 ''actions'' (Some ''commands''),
    mk ''architectural'' ''architectural/'' 2 ''templates'' (Some ''patterns''),
    mk ''development_pat'' ''development/'' 2 ''templates'' (Some ''patterns''),
    mk ''operational'' ''operational/'' 2 ''templates'' (Some ''patterns''),
    mk ''context'' ''context/'' 2 ''context'' (Some ''memory''),
    mk ''sessions'' ''sessions/'' 2 ''context'' (Some ''memory''),
    mk ''knowledge'' ''knowledge/'' 2 ''context'' (Some ''memory''),
    mk ''mcp-integration'' ''mcp-integration/'' 2 ''utilities'' (Some ''shared''),
    mk ''templates'' ''templates/'' 2 ''utilities'' (Some ''shared''),
    mk ''utilities'' ''utilities/'' 2 ''utilities'' (Some ''shared'')]"

text \<open>
  The data invariant of the sample, as a check on any node list: the node carries a
  parent field, some node of the list has that id, and every node of the list with that
  id is exactly one level above it.
\<close>

definition parent_resolves :: "node list \<Rightarrow> node \<Rightarrow> bool" where
  "parent_resolves ns n =
     (case parent n of
        None \<Rightarrow> False
      | Some p \<Rightarrow> filter (\<lambda>m. node_id m = p) ns \<noteq> [] \<and>
                  list_all (\<lambda>m. level m = level n - 1) (filter (\<lambda>m. node_id m = p) ns))"

section \<open>Numbers: Python floats\<close>

text \<open>
  Python's \<^verbatim>\<open>float\<close> is the IEEE 754 binary64 format. A finite float is a
  rational number, so the model computes on \<open>rat\<close> and rounds the exact result of
  every operation to the nearest number with a significand of 53 bits, ties to the even
  significand, as the hardware does. The exponent is not bounded here: binary64 agrees
  with \<open>fl64\<close> on every result of magnitude from \<open>2^-1022\<close> up to \<open>2^1024\<close>
  (exclusive), and the layout of a node list that fits in memory stays far inside that
  range. A Python \<^verbatim>\<open>int\<close> that meets a float is converted first
  (\<open>float_of_int\<close>), rounding the same way. The model does not tell \<^verbatim>\<open>-0.0\<close>
  from \<^verbatim>\<open>0.0\<close> or the integer \<^verbatim>\<open>0\<close>; Python's \<^verbatim>\<open>==\<close> does not either.
\<close>

definition round_half_even :: "rat \<Rightarrow> int" where
  "round_half_even q =
     (let f = \<lfloor>q\<rfloor>; d = q - of_int f
      in if d < 1 / 2 then f else if 1 / 2 < d then f + 1 else if even f then f else f + 1)"

text \<open>The exponent \<open>e\<close> of a nonzero rational: \<open>2^e \<le> \<bar>q\<bar> < 2^(e + 1)\<close>.\<close>

definition exponent :: "rat \<Rightarrow> int" where
  "exponent q =
     (let (a, b) = quotient_of \<bar>q\<bar>; d = bitlen a - bitlen b
      in if 2 powi d \<le> \<bar>q\<bar> then d else d - 1)"

definition fl64 :: "rat \<Rightarrow> rat" where
  "fl64 q = (if q = 0 then 0
             else let u = 2 powi (exponent q - 52) in of_int (round_half_even (q / u)) * u)"

definition float_of_int :: "int \<Rightarrow> rat" where
  "float_of_int k = fl64 (of_int k)"

definition fadd :: "rat \<Rightarrow> rat \<Rightarrow> rat" where
  "fadd a b = fl64 (a + b)"

definition fsub :: "rat \<Rightarrow> rat \<Rightarrow> rat" where
  "fsub a b = fl64 (a - b)"

definition fmul :: "rat \<Rightarrow> rat \<Rightarrow> rat" where
  "fmul a b = fl64 (a * b)"

definition fdiv :: "rat \<Rightarrow> rat \<Rightarrow> rat" where
  "fdiv a b = fl64 (a / b)"

section \<open>The layout: \<^verbatim>\<open>create_hierarchical_layout\<close>\<close>

text \<open>
  The faults the function can raise. \<^verbatim>\<open>positions\<close> is a Python dictionary: an
  association list in insertion order, where storing under a key that is present
  replaces the value in place (\<open>AList.update\<close>) and reading a key that is absent
  raises \<^verbatim>\<open>KeyError\<close>.
\<close>

datatype py_error = IndexError | KeyError | ValueError

type_synonym position = "rat \<times> rat"

type_synonym positions = "(string \<times> position) list"

definition getitem :: "(string \<times> 'v) list \<Rightarrow> string \<Rightarrow> py_error + 'v" where
  "getitem d k = (case map_of d k of None \<Rightarrow> Inl KeyError | Some v \<Rightarrow> Inr v)"

text \<open>\<^verbatim>\<open>list.index\<close>: the position of the first element equal to \<open>x\<close>.\<close>

fun index_of :: "'a list \<Rightarrow> 'a \<Rightarrow> py_error + nat" where
  "index_of [] x = Inl ValueError"
| "index_of (y # ys) x =
     (if y = x then Inr 0
      else case index_of ys x of Inl e \<Rightarrow> Inl e | Inr i \<Rightarrow> Inr (Suc i))"

text \<open>The float literals of the function, each the float nearest to its decimal.\<close>

definition level1_spacing :: rat where
  "level1_spacing = fl64 (45 / 10)"

definition level1_y :: rat where
  "level1_y = - fl64 (35 / 10)"

definition level2_spacing :: rat where
  "level2_spacing = fl64 (18 / 10)"

definition level2_step :: rat where
  "level2_step = fl64 (35 / 10)"

definition level3_spacing :: rat where
  "level3_spacing = fl64 (15 / 10)"

definition level3_step :: rat where
  "level3_step = fl64 (30 / 10)"

text \<open>
  \<^verbatim>\<open>-(len(level1_nodes) - 1) * level1_spacing / 2\<close>: the unary minus binds
  first, then the product, then the quotient.
\<close>

definition start_of :: "nat \<Rightarrow> rat \<Rightarrow> rat" where
  "start_of len spacing = fdiv (fmul (float_of_int (- (int len - 1))) spacing) (float_of_int 2)"

text \<open>The loop of lines 63 to 66 over \<^verbatim>\<open>enumerate(level1_nodes)\<close>.\<close>

fun place_level1 :: "rat \<Rightarrow> nat \<Rightarrow> node list \<Rightarrow> positions \<Rightarrow> positions" where
  "place_level1 start_x i [] positions = positions"
| "place_level1 start_x i (n # rest) positions =
     (let x = fadd start_x (fmul (float_of_int (int i)) level1_spacing);
          y = level1_y
      in place_level1 start_x (Suc i) rest (AList.update (node_id n) (x, y) positions))"

text \<open>
  The body of the loops of lines 70 to 88 (level 2) and 92 to 110 (level 3), which
  differ in the two constants only. \<open>level_nodes\<close> is the list the loop runs over,
  \<open>n\<close> the current node.
\<close>

definition x_offset_of :: "rat \<Rightarrow> nat \<Rightarrow> nat \<Rightarrow> rat" where
  "x_offset_of sibling_spacing len sibling_index =
     (if len = 1 then 0
      else fadd (start_of len sibling_spacing)
             (fmul (float_of_int (int sibling_index)) sibling_spacing))"

definition place_child ::
  "rat \<Rightarrow> rat \<Rightarrow> node list \<Rightarrow> node \<Rightarrow> positions \<Rightarrow> py_error + positions" where
  "place_child sibling_spacing step level_nodes n positions =
     (case parent n of
        None \<Rightarrow> Inl KeyError
      | Some parent_id \<Rightarrow>
          (case getitem positions parent_id of
             Inl e \<Rightarrow> Inl e
           | Inr parent_pos \<Rightarrow>
               (let siblings = filter (\<lambda>m. parent m = Some parent_id) level_nodes
                in case index_of siblings n of
                     Inl e \<Rightarrow> Inl e
                   | Inr sibling_index \<Rightarrow>
                       (let x_offset = x_offset_of sibling_spacing (length siblings) sibling_index;
                            x = fadd (fst parent_pos) x_offset;
                            y = fsub (snd parent_pos) step
                        in Inr (AList.update (node_id n) (x, y) positions)))))"

fun place_children ::
  "rat \<Rightarrow> rat \<Rightarrow> node list \<Rightarrow> node list \<Rightarrow> positions \<Rightarrow> py_error + positions" where
  "place_children sibling_spacing step level_nodes [] positions = Inr positions"
| "place_children sibling_spacing step level_nodes (n # rest) positions =
     (case place_child sibling_spacing step level_nodes n positions of
        Inl e \<Rightarrow> Inl e
      | Inr positions' \<Rightarrow> place_children sibling_spacing step level_nodes rest positions')"

text \<open>Lines 52 to 66: the root and the nodes of level 1.\<close>

definition place_root_and_level1 :: "node list \<Rightarrow> py_error + positions" where
  "place_root_and_level1 ns =
     (case filter (\<lambda>n. level n = 0) ns of
        [] \<Rightarrow> Inl IndexError
      | root_node # _ \<Rightarrow>
          (let positions = AList.update (node_id root_node) (0, 0) [];
               level1_nodes = filter (\<lambda>n. level n = 1) ns;
               start_x = start_of (length level1_nodes) level1_spacing
           in Inr (place_level1 start_x 0 level1_nodes positions)))"

definition create_hierarchical_layout :: "node list \<Rightarrow> py_error + positions" where
  "create_hierarchical_layout ns =
     (case place_root_and_level1 ns of
        Inl e \<Rightarrow> Inl e
      | Inr positions \<Rightarrow>
          (let level2_nodes = filter (\<lambda>n. level n = 2) ns
           in case place_children level2_spacing level2_step level2_nodes level2_nodes positions of
                Inl e \<Rightarrow> Inl e
              | Inr positions \<Rightarrow>
                  (let level3_nodes = filter (\<lambda>n. level n = 3) ns
                   in place_children level3_spacing level3_step level3_nodes level3_nodes
                        positions)))"

text \<open>The position the function computes for an id, if it returns and has the id.\<close>

definition pos_of :: "node list \<Rightarrow> string \<Rightarrow> position option" where
  "pos_of ns k = (case create_hierarchical_layout ns of Inl e \<Rightarrow> None | Inr positions \<Rightarrow> map_of positions k)"

text \<open>
  The value the function returns on the sample, as the layout lemmas below establish:
  the fractions with a large denominator are the floats Python prints as
  \<^verbatim>\<open>-8.55\<close>, \<^verbatim>\<open>-4.95\<close>, \<^verbatim>\<open>-4.05\<close>, \<^verbatim>\<open>-0.44999999999999996\<close> and so on.
\<close>

definition sample_positions :: positions where
  "sample_positions =
   [(''project'', 0, 0),
    (''claude'', - (45 / 4), - (7 / 2)),
    (''workflows'', - (27 / 4), - (7 / 2)),
    (''commands'', - (9 / 4), - (7 / 2)),
    (''patterns'', 9 / 4, - (7 / 2)),
    (''memory'', 27 / 4, - (7 / 2)),
    (''shared'', 45 / 4, - (7 / 2)),
    (''specialists'', - (45 / 4), - 7),
    (''development'', - (2406611050876109 / 281474976710656), - 7),
    (''analysis'', - (27 / 4), - 7),
    (''operations'', - (5573204538870989 / 1125899906842624), - 7),
    (''core'', - (4559894622712627 / 1125899906842624), - 7),
    (''specialized'', - (9 / 4), - 7),
    (''orchestration_cmd'', - (2026619832316723 / 4503599627370496), - 7),
    (''architectural'', 2026619832316723 / 4503599627370496, - 7),
    (''development_pat'', 9 / 4, - 7),
    (''operational'', 4559894622712627 / 1125899906842624, - 7),
    (''context'', 5573204538870989 / 1125899906842624, - 7),
    (''sessions'', 27 / 4, - 7),
    (''knowledge'', 2406611050876109 / 281474976710656, - 7),
    (''mcp-integration'', 2659938529915699 / 281474976710656, - 7),
    (''templates'', 45 / 4, - 7),
    (''utilities'', 3673248446074061 / 281474976710656, - 7),
    (''cognitive'', - (27 / 2), - 10),
    (''technical'', - 12, - 10),
    (''domain'', - (21 / 2), - 10),
    (''orchestration_spec'', - 9, - 10)]"

text \<open>
  The sibling group of a node in its level's loop: the nodes of its level with its
  parent, in the order of the list.
\<close>

definition group_of :: "node list \<Rightarrow> int \<Rightarrow> string option \<Rightarrow> node list" where
  "group_of ns l p = filter (\<lambda>m. level m = l \<and> parent m = p) ns"

definition siblings_of :: "node list \<Rightarrow> node \<Rightarrow> node list" where
  "siblings_of ns n = group_of ns (level n) (parent n)"

text \<open>
  The horizontal offsets the loops compute for a sibling group, in the order of the
  group: \<^verbatim>\<open>start_offset + sibling_index * sibling_spacing\<close> with the spacing of the
  level (for level 1, \<^verbatim>\<open>start_x + i * level1_spacing\<close>).
\<close>

definition spacing_of :: "int \<Rightarrow> rat" where
  "spacing_of l = (if l = 1 then level1_spacing else if l = 2 then level2_spacing else level3_spacing)"

definition offsets_of :: "int \<Rightarrow> nat \<Rightarrow> rat list" where
  "offsets_of l len = map (x_offset_of (spacing_of l) len) [0..<len]"

definition sibling_offsets :: "node list \<Rightarrow> node \<Rightarrow> rat list" where
  "sibling_offsets ns n = offsets_of (level n) (length (siblings_of ns n))"

text \<open>
  The exact symmetry of a list of coordinates about a centre: the offsets from the
  centre, as a multiset, are closed under negation.
\<close>

definition symmetric_about :: "rat \<Rightarrow> rat list \<Rightarrow> bool" where
  "symmetric_about c xs = (mset (map (\<lambda>x. x - c) xs) = mset (map (\<lambda>x. c - x) xs))"

text \<open>
  The mean of a list of floats as float arithmetic computes it: the sum from left to
  right, starting at 0, divided by the count.
\<close>

definition fmean :: "rat list \<Rightarrow> rat" where
  "fmean xs = fdiv (foldl fadd 0 xs) (float_of_int (int (length xs)))"

section \<open>The rendering loops of \<^verbatim>\<open>chart_script.py\<close>\<close>

text \<open>
  A trace of the figure is a \<^verbatim>\<open>go.Scatter\<close>. The record keeps the arguments
  \<^verbatim>\<open>x\<close>, \<^verbatim>\<open>y\<close>, \<^verbatim>\<open>mode\<close>, \<^verbatim>\<open>text\<close>, the marker's \<^verbatim>\<open>size\<close>, the
  colour of the line or marker and \<^verbatim>\<open>name\<close>; the other keyword arguments are the
  same constants for every trace of a loop and are left out. The figure is
  the list of its traces in the order \<^verbatim>\<open>fig.add_trace\<close> appended them.
\<close>

record scatter =
  trace_x :: "rat list"
  trace_y :: "rat list"
  trace_mode :: string
  trace_text :: "string list"
  marker_size :: "int list"
  marker_color :: string
  trace_name :: string

definition colors :: "(string \<times> string) list" where
  "colors =
   [(''root'', ''#13343B''), (''config'', ''#4472C4''), (''process'', ''#70AD47''),
    (''actions'', ''#FF7F50''), (''templates'', ''#9966CC''), (''context'', ''#DC143C''),
    (''utilities'', ''#5D878F'')]"

definition line_trace :: "position \<Rightarrow> position \<Rightarrow> scatter" where
  "line_trace parent_pos child_pos =
     \<lparr>trace_x = [fst parent_pos, fst child_pos], trace_y = [snd parent_pos, snd child_pos],
      trace_mode = ''lines'', trace_text = [], marker_size = [], marker_color = ''#CCCCCC'',
      trace_name = []\<rparr>"

text \<open>The loop of lines 120 to 134.\<close>

fun add_edges :: "node list \<Rightarrow> positions \<Rightarrow> scatter list \<Rightarrow> py_error + scatter list" where
  "add_edges [] node_positions fig = Inr fig"
| "add_edges (n # rest) node_positions fig =
     (case parent n of
        None \<Rightarrow> add_edges rest node_positions fig
      | Some parent_id \<Rightarrow>
          (case getitem node_positions (node_id n) of
             Inl e \<Rightarrow> Inl e
           | Inr child_pos \<Rightarrow>
               (case getitem node_positions parent_id of
                  Inl e \<Rightarrow> Inl e
                | Inr parent_pos \<Rightarrow>
                    add_edges rest node_positions (fig @ [line_trace parent_pos child_pos]))))"

text \<open>
  \<^verbatim>\<open>str.upper\<close>, \<^verbatim>\<open>str.lower\<close> and \<^verbatim>\<open>str.title\<close> on ASCII text (every
  string of the two scripts that meets them is ASCII): a letter that follows a letter
  is lowered by \<^verbatim>\<open>title\<close>, any other letter is raised.
\<close>

definition lower_letters :: string where
  "lower_letters = ''abcdefghijklmnopqrstuvwxyz''"

definition upper_letters :: string where
  "upper_letters = ''ABCDEFGHIJKLMNOPQRSTUVWXYZ''"

definition is_lower :: "char \<Rightarrow> bool" where
  "is_lower c = (c \<in> set lower_letters)"

definition is_upper :: "char \<Rightarrow> bool" where
  "is_upper c = (c \<in> set upper_letters)"

definition upper_char :: "char \<Rightarrow> char" where
  "upper_char c = (case map_of (zip lower_letters upper_letters) c of Some u \<Rightarrow> u | None \<Rightarrow> c)"

definition lower_char :: "char \<Rightarrow> char" where
  "lower_char c = (case map_of (zip upper_letters lower_letters) c of Some l \<Rightarrow> l | None \<Rightarrow> c)"

definition upper :: "string \<Rightarrow> string" where
  "upper s = map upper_char s"

fun title_from :: "bool \<Rightarrow> string \<Rightarrow> string" where
  "title_from prev [] = []"
| "title_from prev (c # cs) =
     (if is_lower c \<or> is_upper c
      then (if prev then lower_char c else upper_char c) # title_from True cs
      else c # title_from False cs)"

definition title :: "string \<Rightarrow> string" where
  "title s = title_from False s"

definition marker_size_of :: "node \<Rightarrow> int" where
  "marker_size_of n = (if level n = 0 then 40 else if level n = 1 then 28 else 22)"

text \<open>
  The two comprehensions of lines 140 and 141 read \<^verbatim>\<open>node_positions[node['id']]\<close>
  for each node of the category in turn; either raises at the first id that is absent.
\<close>

fun coords_of :: "positions \<Rightarrow> node list \<Rightarrow> py_error + position list" where
  "coords_of node_positions [] = Inr []"
| "coords_of node_positions (n # rest) =
     (case getitem node_positions (node_id n) of
        Inl e \<Rightarrow> Inl e
      | Inr p \<Rightarrow> (case coords_of node_positions rest of
                    Inl e \<Rightarrow> Inl e
                  | Inr ps \<Rightarrow> Inr (p # ps)))"

text \<open>The loop of lines 137 to 169 over the keys of \<^verbatim>\<open>colors\<close>.\<close>

fun add_nodes ::
  "(string \<times> string) list \<Rightarrow> node list \<Rightarrow> positions \<Rightarrow> scatter list \<Rightarrow> py_error + scatter list"
  where
  "add_nodes [] ns node_positions fig = Inr fig"
| "add_nodes ((cat, col) # rest) ns node_positions fig =
     (let category_nodes = filter (\<lambda>n. category n = cat) ns
      in if category_nodes = [] then add_nodes rest ns node_positions fig
         else case coords_of node_positions category_nodes of
                Inl e \<Rightarrow> Inl e
              | Inr ps \<Rightarrow>
                  add_nodes rest ns node_positions
                    (fig @ [\<lparr>trace_x = map fst ps, trace_y = map snd ps,
                             trace_mode = ''markers+text'',
                             trace_text = map label category_nodes,
                             marker_size = map marker_size_of category_nodes,
                             marker_color = col, trace_name = title cat\<rparr>]))"

text \<open>
  The script from line 114 to line 169: the layout, the edges, the nodes. The cosmetic
  settings and the write of the image that follow do not change the traces.
\<close>

definition render :: "node list \<Rightarrow> py_error + scatter list" where
  "render ns =
     (case create_hierarchical_layout ns of
        Inl e \<Rightarrow> Inl e
      | Inr node_positions \<Rightarrow>
          (case add_edges ns node_positions [] of
             Inl e \<Rightarrow> Inl e
           | Inr fig \<Rightarrow> add_nodes colors ns node_positions fig))"

section \<open>The report printer of \<^verbatim>\<open>script.py\<close>\<close>

text \<open>
  A value of the \<^verbatim>\<open>structure\<close> dictionaries is a string or a list of strings.
  \<^verbatim>\<open>systems_analysis\<close> and each \<^verbatim>\<open>structure\<close> are dictionaries in insertion
  order; \<^verbatim>\<open>strengths\<close> and \<^verbatim>\<open>structure\<close> are present in every entry. A string
  is the list of the bytes of its UTF-8 encoding, which is what reaches standard output.
\<close>

datatype pyval = Str string | StrList "string list"

record details =
  strengths :: "string list"
  "structure" :: "(string \<times> pyval) list"

definition systems_analysis :: "(string \<times> details) list" where
  "systems_analysis =
   [(''claude_flow'',
     \<lparr>strengths =
        [''17 specialized SPARC development modes'',
         ''Multi-agent orchestration with BatchTool'',
         ''Memory sharing and coordination'',
         ''Command-based interface with clear workflows'',
         ''Swarm mode for parallel execution''],
      structure =
        [(''commands'', StrList [''sparc'', ''swarm'', ''agent'', ''memory'', ''task'']),
         (''modes'',
          StrList [''architect'', ''coder'', ''tdd'', ''security'', ''devops'', ''integration'']),
         (''organization'', Str ''Command-driven with mode specialization'')]\<rparr>),
    (''superclaude'',
     \<lparr>strengths =
        [''9 cognitive personas as universal flags'',
         ''19 specialized commands covering full dev lifecycle'',
         ''Token optimization with @include template system'',
         ''Evidence-based methodology'',
         ''Modular configuration with shared patterns''],
      structure =
        [(''personas'',
          StrList [''architect'', ''frontend'', ''backend'', ''security'', ''analyzer'', ''qa'',
                   ''performance'', ''refactorer'', ''mentor'']),
         (''commands'',
          StrList [''build'', ''analyze'', ''troubleshoot'', ''deploy'', ''scan'', ''test'',
                   ''review'']),
         (''organization'', Str ''Persona-driven with flag inheritance'')]\<rparr>),
    (''best_agents'',
     \<lparr>strengths =
        [''Role-based specialization (CrewAI)'',
         ''Task delegation and collaboration'',
         ''State management and memory'',
         ''Flexible orchestration patterns'',
         ''Multi-framework integration''],
      structure =
        [(''roles'', StrList [''researcher'', ''analyst'', ''writer'', ''reviewer'', ''manager'']),
         (''organization'', Str ''Hierarchical with delegation''),
         (''coordination'', Str ''Manager-worker patterns'')]\<rparr>)]"

text \<open>
  The three characters between the two blanks and the blank of the bullet prefix of
  line 53, as the source file has them (U+00E2, U+20AC, U+00A2), in UTF-8.
\<close>

definition bullet :: string where
  "bullet = [CHR 0xC3, CHR 0xA2, CHR 0xE2, CHR 0x82, CHR 0xAC, CHR 0xC2, CHR 0xA2]"

definition newline :: char where
  "newline = CHR 0x0A"

text \<open>
  What an f-string writes for a value: a string as it is, a list as its \<^verbatim>\<open>repr\<close>
  (quoted here with single quotes and no escapes, which is Python's \<^verbatim>\<open>repr\<close> for
  strings of printable ASCII without quotes and backslashes).
\<close>

fun join :: "string \<Rightarrow> string list \<Rightarrow> string" where
  "join sep [] = []"
| "join sep [s] = s"
| "join sep (s # t # rest) = s @ sep @ join sep (t # rest)"

fun py_str :: "pyval \<Rightarrow> string" where
  "py_str (Str s) = s"
| "py_str (StrList l) = ''['' @ join '', '' (map (\<lambda>s. [CHR 0x27] @ s @ [CHR 0x27]) l) @ '']''"

text \<open>\<^verbatim>\<open>print(s)\<close> appends the text and a newline to standard output.\<close>

definition println :: "string \<Rightarrow> string \<Rightarrow> string" where
  "println out s = out @ s @ [newline]"

text \<open>The inner loop of lines 52 and 53.\<close>

fun print_strengths :: "string list \<Rightarrow> string \<Rightarrow> string" where
  "print_strengths [] out = out"
| "print_strengths (strength # rest) out =
     print_strengths rest (println out (''  '' @ bullet @ '' '' @ strength))"

text \<open>
  The loop of lines 49 to 54. It returns what was written and the fault that ended the
  run, if any: \<^verbatim>\<open>details['structure']['organization']\<close> raises on a missing key,
  after the header and the strengths of that entry were written.
\<close>

fun print_analysis :: "(string \<times> details) list \<Rightarrow> string \<Rightarrow> string \<times> py_error option" where
  "print_analysis [] out = (out, None)"
| "print_analysis ((system, d) # rest) out =
     (let out = println out ([newline] @ upper system @ '' ANALYSIS:'');
          out = println out ''Strengths:'';
          out = print_strengths (strengths d) out
      in case getitem (structure d) ''organization'' of
           Inl e \<Rightarrow> (out, Some e)
         | Inr v \<Rightarrow> print_analysis rest (println out (''Organization: '' @ py_str v)))"

definition run_script :: "string \<times> py_error option" where
  "run_script = print_analysis systems_analysis []"

text \<open>The lines of a text: the pieces that end at a newline, and what follows the last.\<close>

fun lines_of :: "string \<Rightarrow> string list" where
  "lines_of [] = []"
| "lines_of (c # cs) =
     (if c = newline then [] # lines_of cs
      else case lines_of cs of [] \<Rightarrow> [[c]] | l # ls \<Rightarrow> (c # l) # ls)"

section \<open>The rounding\<close>

text \<open>
  \<open>fl64\<close> is rounding to nearest with a significand of 53 bits: the exponent it
  works with is the binade of its argument, its result has a significand of at most 53
  bits and is off by at most half a unit in the last place, and it leaves every number
  that has such a significand as it is.
\<close>

lemma round_half_even_error: "\<bar>of_int (round_half_even q) - q\<bar> \<le> 1 / 2"
proof -
  have "of_int \<lfloor>q\<rfloor> \<le> q" "q < of_int \<lfloor>q\<rfloor> + 1"
    by linarith+
  then show ?thesis
    by (auto simp add: round_half_even_def Let_def)
qed

lemma quotient_of_abs:
  assumes "q \<noteq> 0" and "quotient_of \<bar>q\<bar> = (a, b)"
  shows "0 < a" and "0 < b" and "\<bar>q\<bar> = of_int a / of_int b"
proof -
  from assms(2) show b: "0 < b"
    by (rule quotient_of_denom_pos)
  from assms(2) show e: "\<bar>q\<bar> = of_int a / of_int b"
    by (rule quotient_of_div)
  from assms(1) have "0 < \<bar>q\<bar>"
    by simp
  with e b show "0 < a"
    by (simp add: zero_less_divide_iff)
qed

lemma exponent_bounds:
  assumes "q \<noteq> 0"
  shows "2 powi exponent q \<le> \<bar>q\<bar> \<and> \<bar>q\<bar> < 2 powi (exponent q + 1)"
proof -
  obtain a b where ab: "quotient_of \<bar>q\<bar> = (a, b)"
    by (cases "quotient_of \<bar>q\<bar>")
  note p = quotient_of_abs [OF assms ab]
  let ?d = "bitlen a - bitlen b"
  from bitlen_bounds [OF p(1)] have a: "2 ^ nat (bitlen a - 1) \<le> a" "a < 2 ^ nat (bitlen a)"
    by simp_all
  from bitlen_bounds [OF p(2)] have b: "2 ^ nat (bitlen b - 1) \<le> b" "b < 2 ^ nat (bitlen b)"
    by simp_all
  from p(1) p(2) have la: "1 \<le> bitlen a" and lb: "1 \<le> bitlen b"
    by (simp_all add: bitlen_alt_def)
  have ra: "(2 :: rat) powi (bitlen a - 1) \<le> of_int a" "(of_int a :: rat) < 2 powi bitlen a"
  proof -
    from a(1) have "(of_int (2 ^ nat (bitlen a - 1)) :: rat) \<le> of_int a"
      by (simp only: of_int_le_iff)
    with la show "(2 :: rat) powi (bitlen a - 1) \<le> of_int a"
      by (simp add: power_int_def)
    from a(2) have "(of_int a :: rat) < of_int (2 ^ nat (bitlen a))"
      by (simp only: of_int_less_iff)
    with la show "(of_int a :: rat) < 2 powi bitlen a"
      by (simp add: power_int_def)
  qed
  have rb: "(2 :: rat) powi (bitlen b - 1) \<le> of_int b" "(of_int b :: rat) < 2 powi bitlen b"
  proof -
    from b(1) have "(of_int (2 ^ nat (bitlen b - 1)) :: rat) \<le> of_int b"
      by (simp only: of_int_le_iff)
    with lb show "(2 :: rat) powi (bitlen b - 1) \<le> of_int b"
      by (simp add: power_int_def)
    from b(2) have "(of_int b :: rat) < of_int (2 ^ nat (bitlen b))"
      by (simp only: of_int_less_iff)
    with lb show "(of_int b :: rat) < 2 powi bitlen b"
      by (simp add: power_int_def)
  qed
  have bpos: "(0 :: rat) < of_int b"
    using p(2) by simp
  have upper: "\<bar>q\<bar> < 2 powi (?d + 1)"
  proof -
    have "\<bar>q\<bar> = of_int a / of_int b"
      by (rule p(3))
    also have "\<dots> < 2 powi bitlen a / of_int b"
      using ra(2) bpos by (simp add: divide_strict_right_mono)
    also have "\<dots> \<le> 2 powi bitlen a / 2 powi (bitlen b - 1)"
      using rb(1) by (simp add: frac_le)
    also have "\<dots> = 2 powi (?d + 1)"
      by (simp add: power_int_diff [symmetric] algebra_simps)
    finally show ?thesis .
  qed
  have lower: "2 powi (?d - 1) < \<bar>q\<bar>"
  proof -
    have "(2 :: rat) powi (?d - 1) = 2 powi (bitlen a - 1) / 2 powi bitlen b"
      by (simp add: power_int_diff [symmetric] algebra_simps)
    also have "\<dots> < 2 powi (bitlen a - 1) / of_int b"
      using rb(2) bpos by (simp add: frac_less2)
    also have "\<dots> \<le> of_int a / of_int b"
      using ra(1) bpos by (simp add: divide_right_mono)
    also have "\<dots> = \<bar>q\<bar>"
      by (rule p(3) [symmetric])
    finally show ?thesis .
  qed
  show ?thesis
  proof (cases "2 powi ?d \<le> \<bar>q\<bar>")
    case True
    with ab have "exponent q = ?d"
      by (simp add: exponent_def)
    with True upper show ?thesis
      by simp
  next
    case False
    with ab have "exponent q = ?d - 1"
      by (simp add: exponent_def)
    with False lower show ?thesis
      by simp
  qed
qed

lemma fl64_error: "\<bar>fl64 q - q\<bar> \<le> 2 powi (exponent q - 53)"
proof (cases "q = 0")
  case True
  then show ?thesis
    by (simp add: fl64_def)
next
  case False
  let ?u = "(2 :: rat) powi (exponent q - 52)"
  have u: "0 < ?u"
    by simp
  have "fl64 q - q = (of_int (round_half_even (q / ?u)) - q / ?u) * ?u"
    using False u by (simp add: fl64_def Let_def algebra_simps)
  then have "\<bar>fl64 q - q\<bar> = \<bar>of_int (round_half_even (q / ?u)) - q / ?u\<bar> * ?u"
    using u by (simp add: abs_mult)
  also have "\<dots> \<le> 1 / 2 * ?u"
    using round_half_even_error [of "q / ?u"] u by (intro mult_right_mono) simp_all
  also have "\<dots> = 2 powi (exponent q - 53)"
    using power_int_minus_mult [of "2 :: rat" "exponent q - 52"] by simp
  finally show ?thesis .
qed

lemma round_half_even_of_int: "round_half_even (of_int n) = n"
  by (simp add: round_half_even_def)

lemma fl64_significand:
  assumes "q \<noteq> 0"
  shows "\<exists>m. fl64 q = of_int m * 2 powi (exponent q - 52) \<and> \<bar>m\<bar> \<le> 2 ^ 53"
proof -
  let ?u = "(2 :: rat) powi (exponent q - 52)"
  let ?m = "round_half_even (q / ?u)"
  have u: "0 < ?u"
    by simp
  from exponent_bounds [OF assms] have "\<bar>q\<bar> < 2 powi (exponent q + 1)"
    by simp
  also have "\<dots> = 2 ^ 53 * ?u"
    using power_int_add [of "2 :: rat" 53 "exponent q - 52"] by (simp add: add.commute)
  finally have "\<bar>q / ?u\<bar> < 2 ^ 53"
    using u by (simp add: abs_divide pos_divide_less_eq)
  with round_half_even_error [of "q / ?u"] have "\<bar>(of_int ?m :: rat)\<bar> < 2 ^ 53 + 1"
    by linarith
  then have "(of_int \<bar>?m\<bar> :: rat) < of_int (2 ^ 53 + 1)"
    by simp
  then have "\<bar>?m\<bar> < 2 ^ 53 + 1"
    by (simp only: of_int_less_iff)
  then have "\<bar>?m\<bar> \<le> 2 ^ 53"
    by simp
  moreover from assms have "fl64 q = of_int ?m * ?u"
    by (simp add: fl64_def Let_def)
  ultimately show ?thesis
    by blast
qed

text \<open>A number with a significand of 53 bits is a float: rounding leaves it as it is.\<close>

lemma fl64_exact:
  assumes "\<bar>m\<bar> < 2 ^ 53"
  shows "fl64 (of_int m * 2 powi k) = of_int m * 2 powi k"
proof (cases "m = 0")
  case True
  then show ?thesis
    by (simp add: fl64_def)
next
  case False
  let ?q = "of_int m * (2 :: rat) powi k"
  let ?e = "exponent ?q"
  from False have q: "?q \<noteq> 0"
    by simp
  from exponent_bounds [OF q] have "2 powi ?e \<le> \<bar>?q\<bar>"
    by simp
  also have "\<bar>?q\<bar> = of_int \<bar>m\<bar> * 2 powi k"
    by (simp add: abs_mult)
  also have "\<dots> < 2 ^ 53 * 2 powi k"
  proof -
    from assms have "(of_int \<bar>m\<bar> :: rat) < of_int (2 ^ 53)"
      by (simp only: of_int_less_iff)
    then show ?thesis
      by simp
  qed
  also have "\<dots> = 2 powi (k + 53)"
    using power_int_add [of "2 :: rat" k 53] by simp
  finally have lt: "(2 :: rat) powi ?e < 2 powi (k + 53)" .
  have "?e < k + 53"
  proof (rule ccontr)
    assume "\<not> ?e < k + 53"
    then have "k + 53 \<le> ?e"
      by simp
    then have "(2 :: rat) powi (k + 53) \<le> 2 powi ?e"
      by (rule power_int_increasing) simp
    with lt show False
      by simp
  qed
  then have "0 \<le> k - (?e - 52)"
    by simp
  then obtain j where j: "k - (?e - 52) = int j"
    by (rule nonneg_int_cases)
  have "?q / 2 powi (?e - 52) = of_int m * 2 powi (k - (?e - 52))"
    by (simp add: power_int_diff)
  also have "\<dots> = of_int (m * 2 ^ j)"
    by (simp add: j)
  finally have d: "?q / 2 powi (?e - 52) = of_int (m * 2 ^ j)" .
  have "fl64 ?q = of_int (round_half_even (?q / 2 powi (?e - 52))) * 2 powi (?e - 52)"
    using q by (simp add: fl64_def Let_def)
  also have "\<dots> = ?q / 2 powi (?e - 52) * 2 powi (?e - 52)"
    by (simp only: d round_half_even_of_int)
  also have "\<dots> = ?q"
    by simp
  finally show ?thesis .
qed

section \<open>The sample data\<close>

text \<open>
  Claim C7. In the fixed sample node list, every node other than the root has a parent
  field whose value is the id of some node in the list, and that parent node's level is
  exactly one less than the child's level. The ids of the list are pairwise distinct and
  the root is its only node of level 0, so "the parent node" and "the root" are well
  defined.
\<close>

theorem sample_parents_resolve:
  "distinct (map node_id nodes) \<and>
   filter (\<lambda>n. level n = 0) nodes = [mk ''project'' ''project/'' 0 ''root'' None] \<and>
   list_all (parent_resolves nodes) (filter (\<lambda>n. node_id n \<noteq> ''project'') nodes)"
  by (simp add: nodes_def mk_def parent_resolves_def)

section \<open>The layout of the sample\<close>

text \<open>
  The literals of the layout as rationals, and every float operation the layout of the
  sample performs, each rounded by \<open>fl64\<close>.
\<close>

lemma layout_literals:
  "level1_spacing = 9 / 2"
  "level1_y = - (7 / 2)"
  "level2_spacing = 8106479329266893 / 4503599627370496"
  "level2_step = 7 / 2"
  "level3_spacing = 3 / 2"
  "level3_step = 3"
  by (code_simp+)

lemma layout_arith:
  "float_of_int (- 5) = - 5"
  "fmul (- 5) (9 / 2) = - (45 / 2)"
  "float_of_int 2 = 2"
  "fdiv (- (45 / 2)) 2 = - (45 / 4)"
  "float_of_int 0 = 0"
  "fmul 0 (9 / 2) = 0"
  "fadd (- (45 / 4)) 0 = - (45 / 4)"
  "float_of_int 1 = 1"
  "fmul 1 (9 / 2) = 9 / 2"
  "fadd (- (45 / 4)) (9 / 2) = - (27 / 4)"
  "fmul 2 (9 / 2) = 9"
  "fadd (- (45 / 4)) 9 = - (9 / 4)"
  "float_of_int 3 = 3"
  "fmul 3 (9 / 2) = 27 / 2"
  "fadd (- (45 / 4)) (27 / 2) = 9 / 4"
  "float_of_int 4 = 4"
  "fmul 4 (9 / 2) = 18"
  "fadd (- (45 / 4)) 18 = 27 / 4"
  "float_of_int 5 = 5"
  "fmul 5 (9 / 2) = 45 / 2"
  "fadd (- (45 / 4)) (45 / 2) = 45 / 4"
  "fsub (- (7 / 2)) (7 / 2) = - 7"
  "float_of_int (- 2) = - 2"
  "fmul (- 2) (8106479329266893 / 4503599627370496) = - (8106479329266893 / 2251799813685248)"
  "fdiv (- (8106479329266893 / 2251799813685248)) 2 = - (8106479329266893 / 4503599627370496)"
  "fmul 0 (8106479329266893 / 4503599627370496) = 0"
  "fadd (- (8106479329266893 / 4503599627370496)) 0 = - (8106479329266893 / 4503599627370496)"
  "fadd (- (27 / 4)) (- (8106479329266893 / 4503599627370496)) = - (2406611050876109 / 281474976710656)"
  "fmul 1 (8106479329266893 / 4503599627370496) = 8106479329266893 / 4503599627370496"
  "fadd (- (8106479329266893 / 4503599627370496)) (8106479329266893 / 4503599627370496) = 0"
  "fadd (- (27 / 4)) 0 = - (27 / 4)"
  "fmul 2 (8106479329266893 / 4503599627370496) = 8106479329266893 / 2251799813685248"
  "fadd (- (8106479329266893 / 4503599627370496)) (8106479329266893 / 2251799813685248) = 8106479329266893 / 4503599627370496"
  "fadd (- (27 / 4)) (8106479329266893 / 4503599627370496) = - (5573204538870989 / 1125899906842624)"
  "fadd (- (9 / 4)) (- (8106479329266893 / 4503599627370496)) = - (4559894622712627 / 1125899906842624)"
  "fadd (- (9 / 4)) 0 = - (9 / 4)"
  "fadd (- (9 / 4)) (8106479329266893 / 4503599627370496) = - (2026619832316723 / 4503599627370496)"
  "fadd (9 / 4) (- (8106479329266893 / 4503599627370496)) = 2026619832316723 / 4503599627370496"
  "fadd (9 / 4) 0 = 9 / 4"
  "fadd (9 / 4) (8106479329266893 / 4503599627370496) = 4559894622712627 / 1125899906842624"
  "fadd (27 / 4) (- (8106479329266893 / 4503599627370496)) = 5573204538870989 / 1125899906842624"
  "fadd (27 / 4) 0 = 27 / 4"
  "fadd (27 / 4) (8106479329266893 / 4503599627370496) = 2406611050876109 / 281474976710656"
  "fadd (45 / 4) (- (8106479329266893 / 4503599627370496)) = 2659938529915699 / 281474976710656"
  "fadd (45 / 4) 0 = 45 / 4"
  "fadd (45 / 4) (8106479329266893 / 4503599627370496) = 3673248446074061 / 281474976710656"
  "float_of_int (- 3) = - 3"
  "fmul (- 3) (3 / 2) = - (9 / 2)"
  "fdiv (- (9 / 2)) 2 = - (9 / 4)"
  "fmul 0 (3 / 2) = 0"
  "fadd (- (45 / 4)) (- (9 / 4)) = - (27 / 2)"
  "fsub (- 7) 3 = - 10"
  "fmul 1 (3 / 2) = 3 / 2"
  "fadd (- (9 / 4)) (3 / 2) = - (3 / 4)"
  "fadd (- (45 / 4)) (- (3 / 4)) = - 12"
  "fmul 2 (3 / 2) = 3"
  "fadd (- (9 / 4)) 3 = 3 / 4"
  "fadd (- (45 / 4)) (3 / 4) = - (21 / 2)"
  "fmul 3 (3 / 2) = 9 / 2"
  "fadd (- (9 / 4)) (9 / 2) = 9 / 4"
  "fadd (- (45 / 4)) (9 / 4) = - 9"
  by (code_simp+)


lemma layout_nodes: "create_hierarchical_layout nodes = Inr sample_positions"
  by (simp add: create_hierarchical_layout_def place_root_and_level1_def nodes_def mk_def
      place_child_def getitem_def x_offset_of_def start_of_def layout_literals layout_arith
      sample_positions_def)

lemma pos_of_nodes: "pos_of nodes k = map_of sample_positions k"
  by (simp add: pos_of_def layout_nodes)

lemma sample_ys:
  "list_all (\<lambda>n. (case pos_of nodes (node_id n) of None \<Rightarrow> False
       | Some p \<Rightarrow> snd p = (if level n = 0 then 0 else if level n = 1 then - (7 / 2)
             else if level n = 2 then - 7 else - 10)) \<and> level n \<in> {0, 1, 2, 3}) nodes"
  unfolding pos_of_nodes by (simp add: nodes_def mk_def sample_positions_def)

text \<open>
  Claim C2. For every pair of nodes of the sample node list, if one node's level is
  strictly greater than the other's, the vertical coordinate the layout computes for it
  is strictly smaller.
\<close>

theorem y_decreases_with_level:
  "\<forall>a \<in> set nodes. \<forall>b \<in> set nodes. level a < level b \<longrightarrow>
     (\<exists>pa pb. pos_of nodes (node_id a) = Some pa \<and> pos_of nodes (node_id b) = Some pb \<and>
        snd pb < snd pa)"
proof (intro ballI impI)
  fix a b
  assume a: "a \<in> set nodes" and b: "b \<in> set nodes" and lt: "level a < level b"
  from a sample_ys obtain pa where
    pa: "pos_of nodes (node_id a) = Some pa"
      "snd pa = (if level a = 0 then 0 else if level a = 1 then - (7 / 2)
                else if level a = 2 then - 7 else - 10)" and la: "level a \<in> {0, 1, 2, 3}"
    unfolding list_all_iff by (fastforce split: option.splits)
  from b sample_ys obtain pb where
    pb: "pos_of nodes (node_id b) = Some pb"
      "snd pb = (if level b = 0 then 0 else if level b = 1 then - (7 / 2)
                else if level b = 2 then - 7 else - 10)" and lb: "level b \<in> {0, 1, 2, 3}"
    unfolding list_all_iff by (fastforce split: option.splits)
  from la lb lt have "snd pb < snd pa"
    unfolding pa pb by auto
  with pa(1) pb(1) show "\<exists>pa pb. pos_of nodes (node_id a) = Some pa \<and>
      pos_of nodes (node_id b) = Some pb \<and> snd pb < snd pa"
    by blast
qed

text \<open>The claim at the nodes \<^verbatim>\<open>specialists\<close> (level 2) and \<^verbatim>\<open>cognitive\<close> (level 3).\<close>

theorem y_decreases_with_level_witness:
  "level (mk ''specialists'' ''specialists/'' 2 ''config'' (Some ''claude''))
     < level (mk ''cognitive'' ''cognitive/'' 3 ''config'' (Some ''specialists'')) \<and>
   (\<exists>pa pb. pos_of nodes ''specialists'' = Some pa \<and> pos_of nodes ''cognitive'' = Some pb \<and>
      snd pb < snd pa)"
proof -
  have a: "mk ''specialists'' ''specialists/'' 2 ''config'' (Some ''claude'') \<in> set nodes"
    by (simp add: nodes_def)
  have b: "mk ''cognitive'' ''cognitive/'' 3 ''config'' (Some ''specialists'') \<in> set nodes"
    by (simp add: nodes_def)
  have lt: "level (mk ''specialists'' ''specialists/'' 2 ''config'' (Some ''claude''))
     < level (mk ''cognitive'' ''cognitive/'' 3 ''config'' (Some ''specialists''))"
    by (simp add: mk_def)
  from y_decreases_with_level [rule_format, OF a b lt] lt show ?thesis
    by (simp add: mk_def)
qed

section \<open>The vertical step\<close>

text \<open>
  Claim C4 says that the parent's y minus the child's y is one constant at every level.
  On the sample it is 3.5 from \<^verbatim>\<open>workflows\<close> to \<^verbatim>\<open>analysis\<close> and 3 from
  \<^verbatim>\<open>specialists\<close> to \<^verbatim>\<open>cognitive\<close>: the loop of level 3 subtracts
  \<^verbatim>\<open>3.0\<close> where the loops of levels 1 and 2 use \<^verbatim>\<open>3.5\<close>.
\<close>

theorem fixed_step_counterexample:
  "pos_of nodes ''workflows'' = Some (- (27 / 4), - (7 / 2)) \<and>
   pos_of nodes ''analysis'' = Some (- (27 / 4), - 7) \<and>
   pos_of nodes ''specialists'' = Some (- (45 / 4), - 7) \<and>
   pos_of nodes ''cognitive'' = Some (- (27 / 2), - 10) \<and>
   parent (mk ''analysis'' ''analysis/'' 2 ''process'' (Some ''workflows'')) = Some ''workflows'' \<and>
   parent (mk ''cognitive'' ''cognitive/'' 3 ''config'' (Some ''specialists'')) = Some ''specialists'' \<and>
   (- (7 / 2)) - (- 7) \<noteq> (- 7) - (- 10 :: rat)"
  unfolding pos_of_nodes by (simp add: sample_positions_def mk_def)

lemma sample_steps:
  "list_all (\<lambda>n. case parent n of None \<Rightarrow> True
      | Some p \<Rightarrow> (case pos_of nodes p of None \<Rightarrow> False
          | Some pp \<Rightarrow> (case pos_of nodes (node_id n) of None \<Rightarrow> False
              | Some pc \<Rightarrow> snd pp - snd pc = (if level n = 3 then 3 else 7 / 2) \<and>
                  level n \<in> {1, 2, 3}))) nodes"
  unfolding pos_of_nodes by (simp add: nodes_def mk_def sample_positions_def)

text \<open>
  Claim C4, amended. For every node of the sample with a parent field, the parent and
  the node are positioned, and the parent's y minus the node's y is the step of the
  node's level: \<^verbatim>\<open>3.5\<close> for a node of level 1 or 2, \<^verbatim>\<open>3.0\<close> for a node of
  level 3.
\<close>

theorem step_per_level:
  "\<forall>n \<in> set nodes. \<forall>p. parent n = Some p \<longrightarrow>
     (\<exists>pp pc. pos_of nodes p = Some pp \<and> pos_of nodes (node_id n) = Some pc \<and>
        snd pp - snd pc = (if level n = 3 then level3_step else level2_step)) \<and>
     level n \<in> {1, 2, 3}"
  using sample_steps unfolding list_all_iff layout_literals
  by (fastforce split: option.splits)

text \<open>The amended claim at the node \<^verbatim>\<open>cognitive\<close>.\<close>

theorem step_per_level_witness:
  "parent (mk ''cognitive'' ''cognitive/'' 3 ''config'' (Some ''specialists'')) = Some ''specialists'' \<and>
   (\<exists>pp pc. pos_of nodes ''specialists'' = Some pp \<and> pos_of nodes ''cognitive'' = Some pc \<and>
        snd pp - snd pc = level3_step)"
proof -
  have n: "mk ''cognitive'' ''cognitive/'' 3 ''config'' (Some ''specialists'') \<in> set nodes"
    by (simp add: nodes_def)
  have p: "parent (mk ''cognitive'' ''cognitive/'' 3 ''config'' (Some ''specialists'')) = Some ''specialists''"
    by (simp add: mk_def)
  from step_per_level [rule_format, OF n p] p show ?thesis
    by (simp add: mk_def)
qed

section \<open>Sibling groups of the sample\<close>

text \<open>
  Two lists have the same multiset of elements exactly when they sort to the same list,
  which decides the symmetry of explicit coordinates.
\<close>

lemma symmetric_about_sort:
  "symmetric_about c xs = (sort (map (\<lambda>x. x - c) xs) = sort (map (\<lambda>x. c - x) xs))"
proof
  assume "symmetric_about c xs"
  then have "mset (map (\<lambda>x. x - c) xs) = mset (map (\<lambda>x. c - x) xs)"
    by (simp add: symmetric_about_def)
  then show "sort (map (\<lambda>x. x - c) xs) = sort (map (\<lambda>x. c - x) xs)"
    by (intro properties_for_sort) simp_all
next
  assume "sort (map (\<lambda>x. x - c) xs) = sort (map (\<lambda>x. c - x) xs)"
  then have "mset (sort (map (\<lambda>x. x - c) xs)) = mset (sort (map (\<lambda>x. c - x) xs))"
    by simp
  then show "symmetric_about c xs"
    unfolding symmetric_about_def mset_sort .
qed

lemma level1_arith:
  "fadd 0 (- (45 / 4)) = - (45 / 4)"
  "fadd 0 (- (27 / 4)) = - (27 / 4)"
  "fadd 0 (- (9 / 4)) = - (9 / 4)"
  "fadd 0 (9 / 4) = 9 / 4"
  "fadd 0 (27 / 4) = 27 / 4"
  "fadd 0 (45 / 4) = 45 / 4"
  by (code_simp+)

text \<open>
  The level and parent of every node of the sample, the sibling groups these keys
  select, the offsets the loops compute for a group of each size, and the
  x-coordinates of the groups and of their parents.
\<close>

lemma sample_keys:
  "list_all (\<lambda>n. level n = 0 \<and> parent n = None \<or> level n = 1 \<and> parent n = Some ''project'' \<or>
      level n = 2 \<and> parent n = Some ''claude'' \<or> level n = 2 \<and> parent n = Some ''workflows'' \<or>
      level n = 2 \<and> parent n = Some ''commands'' \<or> level n = 2 \<and> parent n = Some ''patterns'' \<or>
      level n = 2 \<and> parent n = Some ''memory'' \<or> level n = 2 \<and> parent n = Some ''shared'' \<or>
      level n = 3 \<and> parent n = Some ''specialists'') nodes"
  by (simp add: nodes_def mk_def)

lemma sample_groups:
  "map node_id (group_of nodes 0 None) = [''project'']"
  "map node_id (group_of nodes 1 (Some ''project'')) = [''claude'', ''workflows'', ''commands'', ''patterns'', ''memory'', ''shared'']"
  "map node_id (group_of nodes 2 (Some ''claude'')) = [''specialists'']"
  "map node_id (group_of nodes 2 (Some ''workflows'')) = [''development'', ''analysis'', ''operations'']"
  "map node_id (group_of nodes 2 (Some ''commands'')) = [''core'', ''specialized'', ''orchestration_cmd'']"
  "map node_id (group_of nodes 2 (Some ''patterns'')) = [''architectural'', ''development_pat'', ''operational'']"
  "map node_id (group_of nodes 2 (Some ''memory'')) = [''context'', ''sessions'', ''knowledge'']"
  "map node_id (group_of nodes 2 (Some ''shared'')) = [''mcp-integration'', ''templates'', ''utilities'']"
  "map node_id (group_of nodes 3 (Some ''specialists'')) = [''cognitive'', ''technical'', ''domain'', ''orchestration_spec'']"
  by (simp_all add: nodes_def mk_def group_of_def)

lemma sample_group_sizes:
  "length (group_of nodes 0 None) = 1"
  "length (group_of nodes 1 (Some ''project'')) = 6"
  "length (group_of nodes 2 (Some ''claude'')) = 1"
  "length (group_of nodes 2 (Some ''workflows'')) = 3"
  "length (group_of nodes 2 (Some ''commands'')) = 3"
  "length (group_of nodes 2 (Some ''patterns'')) = 3"
  "length (group_of nodes 2 (Some ''memory'')) = 3"
  "length (group_of nodes 2 (Some ''shared'')) = 3"
  "length (group_of nodes 3 (Some ''specialists'')) = 4"
  using sample_groups [THEN arg_cong, of length] by simp_all

lemma upt_values:
  "[0..<6] = [0, 1, 2, 3, 4, 5]" "[0..<3] = [0, 1, 2]" "[0..<4] = [0, 1, 2, 3]"
  by (simp_all add: upt_rec)

lemma sample_offsets_of:
  "offsets_of 1 6 = [- (45 / 4), - (27 / 4), - (9 / 4), 9 / 4, 27 / 4, 45 / 4]"
  "offsets_of 2 3 = [- (8106479329266893 / 4503599627370496), 0, 8106479329266893 / 4503599627370496]"
  "offsets_of 3 4 = [- (9 / 4), - (3 / 4), 3 / 4, 9 / 4]"
  by (simp_all add: offsets_of_def spacing_of_def x_offset_of_def start_of_def layout_literals
      layout_arith upt_values)

lemma pos_fst_map:
  "map (\<lambda>m. map_option fst (pos_of nodes (node_id m))) g =
     map (\<lambda>i. map_option fst (map_of sample_positions i)) (map node_id g)"
  by (simp add: pos_of_nodes)

lemma sample_group_xs:
  "map (\<lambda>m. map_option fst (pos_of nodes (node_id m))) (group_of nodes 1 (Some ''project'')) =
     [Some (- (45 / 4)), Some (- (27 / 4)), Some (- (9 / 4)), Some (9 / 4), Some (27 / 4), Some (45 / 4)]"
  "map (\<lambda>m. map_option fst (pos_of nodes (node_id m))) (group_of nodes 2 (Some ''workflows'')) =
     [Some (- (2406611050876109 / 281474976710656)), Some (- (27 / 4)), Some (- (5573204538870989 / 1125899906842624))]"
  "map (\<lambda>m. map_option fst (pos_of nodes (node_id m))) (group_of nodes 2 (Some ''commands'')) =
     [Some (- (4559894622712627 / 1125899906842624)), Some (- (9 / 4)), Some (- (2026619832316723 / 4503599627370496))]"
  "map (\<lambda>m. map_option fst (pos_of nodes (node_id m))) (group_of nodes 2 (Some ''patterns'')) =
     [Some (2026619832316723 / 4503599627370496), Some (9 / 4), Some (4559894622712627 / 1125899906842624)]"
  "map (\<lambda>m. map_option fst (pos_of nodes (node_id m))) (group_of nodes 2 (Some ''memory'')) =
     [Some (5573204538870989 / 1125899906842624), Some (27 / 4), Some (2406611050876109 / 281474976710656)]"
  "map (\<lambda>m. map_option fst (pos_of nodes (node_id m))) (group_of nodes 2 (Some ''shared'')) =
     [Some (2659938529915699 / 281474976710656), Some (45 / 4), Some (3673248446074061 / 281474976710656)]"
  "map (\<lambda>m. map_option fst (pos_of nodes (node_id m))) (group_of nodes 3 (Some ''specialists'')) =
     [Some (- (27 / 2)), Some (- 12), Some (- (21 / 2)), Some (- 9)]"
  unfolding pos_fst_map sample_groups by (simp_all add: sample_positions_def)

lemma sample_group_fmeans:
  "fmean [- (45 / 4), - (27 / 4), - (9 / 4), 9 / 4, 27 / 4, 45 / 4] = 0"
  "fmean [- (2406611050876109 / 281474976710656), - (27 / 4), - (5573204538870989 / 1125899906842624)] = - (27 / 4)"
  "fmean [- (4559894622712627 / 1125899906842624), - (9 / 4), - (2026619832316723 / 4503599627370496)] = - (9 / 4)"
  "fmean [2026619832316723 / 4503599627370496, 9 / 4, 4559894622712627 / 1125899906842624] = 9 / 4"
  "fmean [5573204538870989 / 1125899906842624, 27 / 4, 2406611050876109 / 281474976710656] = 27 / 4"
  "fmean [2659938529915699 / 281474976710656, 45 / 4, 3673248446074061 / 281474976710656] = 45 / 4"
  "fmean [- (27 / 2), - 12, - (21 / 2), - 9] = - (45 / 4)"
  by (code_simp+)

lemma sample_parent_pos:
  "pos_of nodes ''project'' = Some (0, 0)"
  "pos_of nodes ''workflows'' = Some (- (27 / 4), - (7 / 2))"
  "pos_of nodes ''commands'' = Some (- (9 / 4), - (7 / 2))"
  "pos_of nodes ''patterns'' = Some (9 / 4, - (7 / 2))"
  "pos_of nodes ''memory'' = Some (27 / 4, - (7 / 2))"
  "pos_of nodes ''shared'' = Some (45 / 4, - (7 / 2))"
  "pos_of nodes ''specialists'' = Some (- (45 / 4), - 7)"
  unfolding pos_of_nodes by (simp_all add: sample_positions_def)

lemma group_property:
  assumes "l = 1 \<and> p = ''project'' \<or> l = 2 \<and> p = ''workflows'' \<or> l = 2 \<and> p = ''commands'' \<or>
      l = 2 \<and> p = ''patterns'' \<or> l = 2 \<and> p = ''memory'' \<or> l = 2 \<and> p = ''shared'' \<or>
      l = 3 \<and> p = ''specialists''"
  shows "\<exists>pp. pos_of nodes p = Some pp \<and>
     symmetric_about 0 (offsets_of l (length (group_of nodes l (Some p)))) \<and>
     map (\<lambda>m. map_option fst (pos_of nodes (node_id m))) (group_of nodes l (Some p)) =
       map (\<lambda>d. Some (fadd (fst pp) d)) (offsets_of l (length (group_of nodes l (Some p)))) \<and>
     fmean (map (fadd (fst pp)) (offsets_of l (length (group_of nodes l (Some p))))) = fst pp \<and>
     (symmetric_about (fst pp) (map (fadd (fst pp)) (offsets_of l (length (group_of nodes l (Some p))))) \<longleftrightarrow>
        p \<notin> set [''workflows'', ''commands'', ''patterns'', ''memory''])"
  using assms
  by (elim disjE conjE)
    (simp_all add: sample_group_xs sample_group_sizes sample_offsets_of sample_parent_pos
      symmetric_about_sort layout_arith level1_arith sample_group_fmeans)

text \<open>
  Claim C3. For every sibling group of the sample of size above 1, the horizontal
  offsets the layout computes for the siblings (the values of \<^verbatim>\<open>x_offset\<close>; for
  level 1, of \<^verbatim>\<open>start_x + i * level1_spacing\<close>) are symmetric around the parent's
  x-coordinate: as a multiset they are closed under negation, each sibling's
  x-coordinate is the float sum of the parent's x-coordinate and its offset, and the
  mean of the siblings' x-coordinates, in float arithmetic, is the parent's
  x-coordinate.
\<close>

theorem sibling_offsets_symmetric:
  "\<forall>n \<in> set nodes. 1 < length (siblings_of nodes n) \<longrightarrow>
     (\<exists>p pp. parent n = Some p \<and> pos_of nodes p = Some pp \<and>
        symmetric_about 0 (sibling_offsets nodes n) \<and>
        map (\<lambda>m. map_option fst (pos_of nodes (node_id m))) (siblings_of nodes n) =
          map (\<lambda>d. Some (fadd (fst pp) d)) (sibling_offsets nodes n) \<and>
        fmean (map (fadd (fst pp)) (sibling_offsets nodes n)) = fst pp)"
proof (intro ballI impI)
  fix n
  assume n: "n \<in> set nodes" and len: "1 < length (siblings_of nodes n)"
  from sample_keys n
  have k: "level n = 0 \<and> parent n = None \<or> level n = 1 \<and> parent n = Some ''project'' \<or>
      level n = 2 \<and> parent n = Some ''claude'' \<or> level n = 2 \<and> parent n = Some ''workflows'' \<or>
      level n = 2 \<and> parent n = Some ''commands'' \<or> level n = 2 \<and> parent n = Some ''patterns'' \<or>
      level n = 2 \<and> parent n = Some ''memory'' \<or> level n = 2 \<and> parent n = Some ''shared'' \<or>
      level n = 3 \<and> parent n = Some ''specialists''"
    unfolding list_all_iff by blast
  from k len have "\<exists>p. parent n = Some p \<and>
     (level n = 1 \<and> p = ''project'' \<or> level n = 2 \<and> p = ''workflows'' \<or>
      level n = 2 \<and> p = ''commands'' \<or> level n = 2 \<and> p = ''patterns'' \<or>
      level n = 2 \<and> p = ''memory'' \<or> level n = 2 \<and> p = ''shared'' \<or>
      level n = 3 \<and> p = ''specialists'')"
    unfolding siblings_of_def
    by (elim disjE conjE) (simp_all add: sample_group_sizes)
  then obtain p where pk: "parent n = Some p \<and>
     (level n = 1 \<and> p = ''project'' \<or> level n = 2 \<and> p = ''workflows'' \<or>
      level n = 2 \<and> p = ''commands'' \<or> level n = 2 \<and> p = ''patterns'' \<or>
      level n = 2 \<and> p = ''memory'' \<or> level n = 2 \<and> p = ''shared'' \<or>
      level n = 3 \<and> p = ''specialists'')" ..
  note p = pk [THEN conjunct1] and key = pk [THEN conjunct2]
  from group_property [OF key] obtain pp where
    g: "pos_of nodes p = Some pp \<and>
     symmetric_about 0 (offsets_of (level n) (length (group_of nodes (level n) (Some p)))) \<and>
     map (\<lambda>m. map_option fst (pos_of nodes (node_id m))) (group_of nodes (level n) (Some p)) =
       map (\<lambda>d. Some (fadd (fst pp) d))
         (offsets_of (level n) (length (group_of nodes (level n) (Some p)))) \<and>
     fmean (map (fadd (fst pp))
       (offsets_of (level n) (length (group_of nodes (level n) (Some p))))) = fst pp \<and>
     (symmetric_about (fst pp) (map (fadd (fst pp))
         (offsets_of (level n) (length (group_of nodes (level n) (Some p))))) \<longleftrightarrow>
        p \<notin> set [''workflows'', ''commands'', ''patterns'', ''memory''])" ..
  note g1 = g [THEN conjunct1] and g2 = g [THEN conjunct2, THEN conjunct1]
    and g3 = g [THEN conjunct2, THEN conjunct2, THEN conjunct1]
    and g4 = g [THEN conjunct2, THEN conjunct2, THEN conjunct2, THEN conjunct1]
  from p g1 g2 g3 g4
  show "\<exists>p pp. parent n = Some p \<and> pos_of nodes p = Some pp \<and>
        symmetric_about 0 (sibling_offsets nodes n) \<and>
        map (\<lambda>m. map_option fst (pos_of nodes (node_id m))) (siblings_of nodes n) =
          map (\<lambda>d. Some (fadd (fst pp) d)) (sibling_offsets nodes n) \<and>
        fmean (map (fadd (fst pp)) (sibling_offsets nodes n)) = fst pp"
    unfolding siblings_of_def sibling_offsets_def p by (intro exI conjI)
qed

text \<open>
  The claim at the node \<^verbatim>\<open>development\<close>, whose group under \<^verbatim>\<open>workflows\<close> has
  three nodes.
\<close>

theorem sibling_offsets_symmetric_witness:
  "1 < length (siblings_of nodes (mk ''development'' ''development/'' 2 ''process'' (Some ''workflows''))) \<and>
   (\<exists>pp. pos_of nodes ''workflows'' = Some pp \<and>
      symmetric_about 0
        (sibling_offsets nodes (mk ''development'' ''development/'' 2 ''process'' (Some ''workflows''))) \<and>
      fmean (map (fadd (fst pp))
        (sibling_offsets nodes (mk ''development'' ''development/'' 2 ''process'' (Some ''workflows'')))) =
        fst pp)"
proof -
  let ?dev = "mk ''development'' ''development/'' 2 ''process'' (Some ''workflows'')"
  have n: "?dev \<in> set nodes"
    by (simp add: nodes_def)
  have len: "1 < length (siblings_of nodes ?dev)"
    by (simp add: siblings_of_def mk_def sample_group_sizes)
  from sibling_offsets_symmetric [rule_format, OF n len] obtain p where
    "\<exists>pp. parent ?dev = Some p \<and> pos_of nodes p = Some pp \<and>
        symmetric_about 0 (sibling_offsets nodes ?dev) \<and>
        map (\<lambda>m. map_option fst (pos_of nodes (node_id m))) (siblings_of nodes ?dev) =
          map (\<lambda>d. Some (fadd (fst pp) d)) (sibling_offsets nodes ?dev) \<and>
        fmean (map (fadd (fst pp)) (sibling_offsets nodes ?dev)) = fst pp" ..
  then obtain pp where c: "parent ?dev = Some p \<and> pos_of nodes p = Some pp \<and>
        symmetric_about 0 (sibling_offsets nodes ?dev) \<and>
        map (\<lambda>m. map_option fst (pos_of nodes (node_id m))) (siblings_of nodes ?dev) =
          map (\<lambda>d. Some (fadd (fst pp) d)) (sibling_offsets nodes ?dev) \<and>
        fmean (map (fadd (fst pp)) (sibling_offsets nodes ?dev)) = fst pp" ..
  note p = c [THEN conjunct1] and pp = c [THEN conjunct2, THEN conjunct1]
    and s0 = c [THEN conjunct2, THEN conjunct2, THEN conjunct1]
    and s1 = c [THEN conjunct2, THEN conjunct2, THEN conjunct2, THEN conjunct2]
  from p have "p = ''workflows''"
    by (simp add: mk_def)
  with pp s0 s1 len show ?thesis
    by simp
qed

text \<open>
  The x-coordinates themselves are rounded sums. Under \<^verbatim>\<open>workflows\<close>, whose x is
  \<^verbatim>\<open>-6.75\<close>, the floats \<^verbatim>\<open>-6.75 - 1.8\<close> and \<^verbatim>\<open>-6.75 + 1.8\<close> lie in different
  binades and are rounded by different amounts, so the exact differences between the
  coordinates of \<^verbatim>\<open>development\<close> and \<^verbatim>\<open>operations\<close> and the parent's are not
  mirror images, although the offsets the layout computed are.
\<close>

lemma workflows_rounded_sums:
  "pos_of nodes ''workflows'' = Some (- (27 / 4), - (7 / 2)) \<and>
   pos_of nodes ''development'' = Some (- (2406611050876109 / 281474976710656), - 7) \<and>
   pos_of nodes ''operations'' = Some (- (5573204538870989 / 1125899906842624), - 7) \<and>
   - (2406611050876109 / 281474976710656) - (- (27 / 4)) = (- (2026619832316724 / 1125899906842624) :: rat) \<and>
   - (5573204538870989 / 1125899906842624) - (- (27 / 4)) = (2026619832316723 / 1125899906842624 :: rat) \<and>
   \<not> symmetric_about (- (27 / 4))
       [- (2406611050876109 / 281474976710656), - (27 / 4), - (5573204538870989 / 1125899906842624)]"
proof -
  have p: "pos_of nodes ''workflows'' = Some (- (27 / 4), - (7 / 2))"
    "pos_of nodes ''development'' = Some (- (2406611050876109 / 281474976710656), - 7)"
    "pos_of nodes ''operations'' = Some (- (5573204538870989 / 1125899906842624), - 7)"
    unfolding pos_of_nodes by (simp_all add: sample_positions_def)
  have d: "- (2406611050876109 / 281474976710656) - (- (27 / 4)) = (- (2026619832316724 / 1125899906842624) :: rat)"
    "- (5573204538870989 / 1125899906842624) - (- (27 / 4)) = (2026619832316723 / 1125899906842624 :: rat)"
    by simp_all
  have s: "\<not> symmetric_about (- (27 / 4))
       [- (2406611050876109 / 281474976710656), - (27 / 4), - (5573204538870989 / 1125899906842624)]"
    unfolding symmetric_about_sort by simp
  from p d s show ?thesis by (intro conjI)
qed

text \<open>
  Claim C5. For every sibling group of size exactly 1 at levels 2 and 3 of the sample,
  the horizontal offset is exactly zero: the sole child's x-coordinate equals its
  parent's.
\<close>

theorem single_child_under_parent:
  "\<forall>n \<in> set nodes. (level n = 2 \<or> level n = 3) \<longrightarrow> length (siblings_of nodes n) = 1 \<longrightarrow>
     (\<exists>p pp pc. parent n = Some p \<and> pos_of nodes p = Some pp \<and>
        pos_of nodes (node_id n) = Some pc \<and> fst pc = fst pp \<and>
        x_offset_of (spacing_of (level n)) (length (siblings_of nodes n)) 0 = 0)"
proof (intro ballI impI)
  fix n
  assume n: "n \<in> set nodes" and l: "level n = 2 \<or> level n = 3"
    and one: "length (siblings_of nodes n) = 1"
  from sample_keys n
  have k: "level n = 0 \<and> parent n = None \<or> level n = 1 \<and> parent n = Some ''project'' \<or>
      level n = 2 \<and> parent n = Some ''claude'' \<or> level n = 2 \<and> parent n = Some ''workflows'' \<or>
      level n = 2 \<and> parent n = Some ''commands'' \<or> level n = 2 \<and> parent n = Some ''patterns'' \<or>
      level n = 2 \<and> parent n = Some ''memory'' \<or> level n = 2 \<and> parent n = Some ''shared'' \<or>
      level n = 3 \<and> parent n = Some ''specialists''"
    unfolding list_all_iff by blast
  from k l one have key: "level n = 2 \<and> parent n = Some ''claude''"
    unfolding siblings_of_def
    by (elim disjE conjE) (simp_all add: sample_group_sizes)
  from n key have "n \<in> set (group_of nodes 2 (Some ''claude''))"
    by (simp add: group_of_def)
  then have "node_id n \<in> node_id ` set (group_of nodes 2 (Some ''claude''))"
    by (rule imageI)
  then have "node_id n \<in> set (map node_id (group_of nodes 2 (Some ''claude'')))"
    by (simp only: set_map)
  then have i: "node_id n = ''specialists''"
    unfolding sample_groups by simp
  have "pos_of nodes ''claude'' = Some (- (45 / 4), - (7 / 2))"
    "pos_of nodes ''specialists'' = Some (- (45 / 4), - 7)"
    unfolding pos_of_nodes by (simp_all add: sample_positions_def)
  with key i one
  show "\<exists>p pp pc. parent n = Some p \<and> pos_of nodes p = Some pp \<and>
        pos_of nodes (node_id n) = Some pc \<and> fst pc = fst pp \<and>
        x_offset_of (spacing_of (level n)) (length (siblings_of nodes n)) 0 = 0"
    by (simp add: x_offset_of_def)
qed

text \<open>The claim at \<^verbatim>\<open>specialists\<close>, the only child of \<^verbatim>\<open>claude\<close>.\<close>

theorem single_child_under_parent_witness:
  "level (mk ''specialists'' ''specialists/'' 2 ''config'' (Some ''claude'')) = 2 \<and>
   length (siblings_of nodes (mk ''specialists'' ''specialists/'' 2 ''config'' (Some ''claude''))) = 1 \<and>
   (\<exists>p pp pc. parent (mk ''specialists'' ''specialists/'' 2 ''config'' (Some ''claude'')) = Some p \<and>
      pos_of nodes p = Some pp \<and>
      pos_of nodes (node_id (mk ''specialists'' ''specialists/'' 2 ''config'' (Some ''claude''))) = Some pc \<and>
      fst pc = fst pp \<and>
      x_offset_of (spacing_of (level (mk ''specialists'' ''specialists/'' 2 ''config'' (Some ''claude''))))
        (length (siblings_of nodes (mk ''specialists'' ''specialists/'' 2 ''config'' (Some ''claude'')))) 0 = 0)"
proof -
  let ?n = "mk ''specialists'' ''specialists/'' 2 ''config'' (Some ''claude'')"
  have n: "?n \<in> set nodes"
    by (simp add: nodes_def)
  have l2: "level ?n = 2"
    by (simp add: mk_def)
  then have l: "level ?n = 2 \<or> level ?n = 3" ..
  have one: "length (siblings_of nodes ?n) = 1"
    by (simp add: siblings_of_def mk_def sample_group_sizes)
  from l2 one single_child_under_parent [rule_format, OF n l one] show ?thesis
    by (intro conjI)
qed

section \<open>The keys of the positions\<close>

text \<open>
  What the loops do to the keys of \<^verbatim>\<open>positions\<close>: a store adds the node's id, and
  a node of level 2 or 3 is placed only when its parent field names a key that is
  already there.
\<close>

lemma getitem_Inr: "getitem d k = Inr v \<longleftrightarrow> map_of d k = Some v"
  by (simp add: getitem_def split: option.splits)

lemma getitem_Inl: "getitem d k = Inl e \<longleftrightarrow> e = KeyError \<and> k \<notin> fst ` set d"
proof -
  have "k \<notin> fst ` set d \<longleftrightarrow> map_of d k = None"
    by (simp add: map_of_eq_None_iff)
  then show ?thesis
    by (auto simp add: getitem_def split: option.splits)
qed

lemma keys_place_level1:
  "fst ` set (place_level1 start_x i l positions) = fst ` set positions \<union> node_id ` set l"
  by (induction l arbitrary: i positions) (simp_all add: Let_def dom_update Un_commute insert_commute)

lemma index_of_member: "a \<in> set xs \<Longrightarrow> \<exists>i. index_of xs a = Inr i"
  by (induction xs) auto

lemma place_child_Inr:
  assumes "place_child sp st lv n positions = Inr positions'"
  shows "\<exists>p. parent n = Some p \<and> p \<in> fst ` set positions \<and>
           fst ` set positions' = insert (node_id n) (fst ` set positions)"
proof -
  from assms obtain p where p: "parent n = Some p"
    by (cases "parent n") (simp_all add: place_child_def)
  from assms p obtain pp where pp: "getitem positions p = Inr pp"
    by (cases "getitem positions p") (simp_all add: place_child_def)
  then have "map_of positions p = Some pp"
    by (simp add: getitem_Inr)
  then have k: "p \<in> fst ` set positions"
    by (metis map_of_eq_None_iff option.distinct(1))
  from assms p pp obtain v where "positions' = AList.update (node_id n) v positions"
    by (auto simp add: place_child_def Let_def split: sum.splits)
  then have "fst ` set positions' = insert (node_id n) (fst ` set positions)"
    by (simp add: dom_update)
  with p k show ?thesis
    by blast
qed

lemma place_child_Inl:
  assumes "place_child sp st lv n positions = Inl e" and "n \<in> set lv"
  shows "e = KeyError"
proof (cases "parent n")
  case None
  with assms show ?thesis
    by (simp add: place_child_def)
next
  case (Some p)
  with assms(2) have "n \<in> set (filter (\<lambda>m. parent m = Some p) lv)"
    by simp
  from index_of_member [OF this]
  obtain i where "index_of (filter (\<lambda>m. parent m = Some p) lv) n = Inr i" ..
  with assms(1) Some show ?thesis
    by (auto simp add: place_child_def Let_def getitem_Inl split: sum.splits)
qed

lemma place_children_Inr:
  assumes "place_children sp st lv todo positions = Inr positions'"
  shows "fst ` set positions' = fst ` set positions \<union> node_id ` set todo \<and>
         (\<forall>n \<in> set todo. \<exists>p. parent n = Some p \<and> p \<in> fst ` set positions \<union> node_id ` set todo)"
  using assms
proof (induction todo arbitrary: positions)
  case Nil
  then show ?case
    by simp
next
  case (Cons n rest)
  from Cons.prems obtain mid where
    mid: "place_child sp st lv n positions = Inr mid" and
    rest: "place_children sp st lv rest mid = Inr positions'"
    by (cases "place_child sp st lv n positions") simp_all
  from place_child_Inr [OF mid] obtain p where
    p: "parent n = Some p" "p \<in> fst ` set positions" and
    k: "fst ` set mid = insert (node_id n) (fst ` set positions)"
    by blast
  from Cons.IH [OF rest] k p show ?case
    by auto
qed

lemma place_children_Inl:
  assumes "place_children sp st lv todo positions = Inl e" and "set todo \<subseteq> set lv"
  shows "e = KeyError"
  using assms
proof (induction todo arbitrary: positions)
  case Nil
  then show ?case
    by simp
next
  case (Cons n rest)
  show ?case
  proof (cases "place_child sp st lv n positions")
    case (Inl e')
    with Cons.prems show ?thesis
      using place_child_Inl [of sp st lv n positions e'] by simp
  next
    case (Inr mid)
    with Cons.prems Cons.IH [of mid] show ?thesis
      by simp
  qed
qed

lemma place_root_and_level1_Inl:
  "place_root_and_level1 ns = Inl e \<longleftrightarrow> e = IndexError \<and> filter (\<lambda>n. level n = 0) ns = []"
  by (auto simp add: place_root_and_level1_def Let_def split: list.splits)

lemma place_root_and_level1_Inr:
  assumes "place_root_and_level1 ns = Inr positions"
  shows "\<exists>root_node rest. filter (\<lambda>n. level n = 0) ns = root_node # rest \<and>
     fst ` set positions = insert (node_id root_node) (node_id ` {n \<in> set ns. level n = 1})"
proof (cases "filter (\<lambda>n. level n = 0) ns")
  case Nil
  with assms show ?thesis
    by (simp add: place_root_and_level1_def)
next
  case (Cons root_node rest)
  with assms have "positions = place_level1
      (start_of (length (filter (\<lambda>n. level n = 1) ns)) level1_spacing) 0
      (filter (\<lambda>n. level n = 1) ns) [(node_id root_node, 0, 0)]"
    by (simp add: place_root_and_level1_def Let_def)
  then have "fst ` set positions =
      insert (node_id root_node) (node_id ` {n \<in> set ns. level n = 1})"
    by (simp add: keys_place_level1)
  with Cons show ?thesis
    by blast
qed

lemma layout_Inl:
  assumes "create_hierarchical_layout ns = Inl e"
  shows "e = IndexError \<or> e = KeyError"
proof (cases "place_root_and_level1 ns")
  case (Inl e')
  with assms show ?thesis
    by (simp add: create_hierarchical_layout_def place_root_and_level1_Inl)
next
  case (Inr p1)
  show ?thesis
  proof (cases "place_children level2_spacing level2_step (filter (\<lambda>n. level n = 2) ns)
      (filter (\<lambda>n. level n = 2) ns) p1")
    case (Inl e')
    with assms Inr have "e' = e"
      by (simp add: create_hierarchical_layout_def Let_def)
    with Inl place_children_Inl show ?thesis
      by blast
  next
    case p2: (Inr p2)
    with assms Inr have "place_children level3_spacing level3_step (filter (\<lambda>n. level n = 3) ns)
      (filter (\<lambda>n. level n = 3) ns) p2 = Inl e"
      by (simp add: create_hierarchical_layout_def Let_def)
    with place_children_Inl show ?thesis
      by blast
  qed
qed

lemma layout_Inl_exact:
  assumes "create_hierarchical_layout ns = Inl e"
  shows "e = (if filter (\<lambda>n. level n = 0) ns = [] then IndexError else KeyError)"
proof (cases "place_root_and_level1 ns")
  case (Inl e')
  with assms have "e' = e"
    by (simp add: create_hierarchical_layout_def)
  with Inl show ?thesis
    by (simp add: place_root_and_level1_Inl)
next
  case (Inr p1)
  have "filter (\<lambda>n. level n = 0) ns \<noteq> []"
  proof
    assume "filter (\<lambda>n. level n = 0) ns = []"
    then have "place_root_and_level1 ns = Inl IndexError"
      by (simp add: place_root_and_level1_Inl)
    with Inr show False
      by simp
  qed
  moreover from layout_Inl [OF assms] Inr assms have "e = KeyError"
  proof -
    show ?thesis
    proof (cases "place_children level2_spacing level2_step (filter (\<lambda>n. level n = 2) ns)
        (filter (\<lambda>n. level n = 2) ns) p1")
      case (Inl e')
      with assms Inr have "e' = e"
        by (simp add: create_hierarchical_layout_def Let_def)
      with Inl place_children_Inl show ?thesis
        by blast
    next
      case p2: (Inr p2)
      with assms Inr have "place_children level3_spacing level3_step
          (filter (\<lambda>n. level n = 3) ns) (filter (\<lambda>n. level n = 3) ns) p2 = Inl e"
        by (simp add: create_hierarchical_layout_def Let_def)
      with place_children_Inl show ?thesis
        by blast
    qed
  qed
  ultimately show ?thesis
    by simp
qed

lemma layout_Inr:
  assumes "create_hierarchical_layout ns = Inr positions"
  shows "\<exists>root_node rest. filter (\<lambda>n. level n = 0) ns = root_node # rest \<and>
     fst ` set positions =
       insert (node_id root_node) (node_id ` {n \<in> set ns. level n = 1 \<or> level n = 2 \<or> level n = 3}) \<and>
     (\<forall>n \<in> set ns. level n = 2 \<or> level n = 3 \<longrightarrow>
        (\<exists>p. parent n = Some p \<and> p \<in> fst ` set positions))"
proof -
  from assms obtain p1 where p1: "place_root_and_level1 ns = Inr p1"
    by (cases "place_root_and_level1 ns") (simp_all add: create_hierarchical_layout_def)
  from assms p1 obtain p2 where
    p2: "place_children level2_spacing level2_step (filter (\<lambda>n. level n = 2) ns)
      (filter (\<lambda>n. level n = 2) ns) p1 = Inr p2"
    by (cases "place_children level2_spacing level2_step (filter (\<lambda>n. level n = 2) ns)
      (filter (\<lambda>n. level n = 2) ns) p1") (simp_all add: create_hierarchical_layout_def Let_def)
  from assms p1 p2 have
    p3: "place_children level3_spacing level3_step (filter (\<lambda>n. level n = 3) ns)
      (filter (\<lambda>n. level n = 3) ns) p2 = Inr positions"
    by (simp add: create_hierarchical_layout_def Let_def)
  from place_root_and_level1_Inr [OF p1] obtain root_node rest where
    r: "filter (\<lambda>n. level n = 0) ns = root_node # rest" and
    k1: "fst ` set p1 = insert (node_id root_node) (node_id ` {n \<in> set ns. level n = 1})"
    by blast
  note k2 = place_children_Inr [OF p2] and k3 = place_children_Inr [OF p3]
  have "fst ` set positions =
      insert (node_id root_node) (node_id ` {n \<in> set ns. level n = 1}) \<union>
      node_id ` {n \<in> set ns. level n = 2} \<union> node_id ` {n \<in> set ns. level n = 3}"
    using k1 k2 [THEN conjunct1] k3 [THEN conjunct1] by simp
  also have "\<dots> =
      insert (node_id root_node) (node_id ` {n \<in> set ns. level n = 1 \<or> level n = 2 \<or> level n = 3})"
    by blast
  finally have keys: "fst ` set positions =
       insert (node_id root_node) (node_id ` {n \<in> set ns. level n = 1 \<or> level n = 2 \<or> level n = 3})" .
  note s2 = k2 [THEN conjunct1] and s3 = k3 [THEN conjunct1]
  have "\<exists>p. parent n = Some p \<and> p \<in> fst ` set positions"
    if n: "n \<in> set ns" and l: "level n = 2 \<or> level n = 3" for n
  proof -
    from l show ?thesis
    proof
      assume "level n = 2"
      with n have "n \<in> set (filter (\<lambda>n. level n = 2) ns)"
        by simp
      from k2 [THEN conjunct2, rule_format, OF this] obtain p where
        p: "parent n = Some p" and
        "p \<in> fst ` set p1 \<union> node_id ` set (filter (\<lambda>n. level n = 2) ns)"
        by (elim exE conjE)
      then have "p \<in> fst ` set p2"
        by (simp only: s2)
      then have "p \<in> fst ` set positions"
        by (simp only: s3 Un_iff simp_thms)
      with p show ?thesis
        by (intro exI conjI)
    next
      assume "level n = 3"
      with n have "n \<in> set (filter (\<lambda>n. level n = 3) ns)"
        by simp
      from k3 [THEN conjunct2, rule_format, OF this] obtain p where
        p: "parent n = Some p" and
        "p \<in> fst ` set p2 \<union> node_id ` set (filter (\<lambda>n. level n = 3) ns)"
        by (elim exE conjE)
      then have "p \<in> fst ` set positions"
        by (simp only: s3)
      with p show ?thesis
        by (intro exI conjI)
    qed
  qed
  then have "\<forall>n \<in> set ns. level n = 2 \<or> level n = 3 \<longrightarrow>
        (\<exists>p. parent n = Some p \<and> p \<in> fst ` set positions)"
    by blast
  with r keys show ?thesis
    by (intro exI conjI)
qed

lemma fl64_zero: "fl64 0 = 0"
  by (simp add: fl64_def)

lemma float_zero:
  "float_of_int 0 = 0" "fmul 0 a = 0" "fdiv 0 a = 0" "fadd 0 0 = 0"
  by (simp_all add: float_of_int_def fmul_def fdiv_def fadd_def fl64_zero)

lemma layout_keys_are_ids:
  assumes "create_hierarchical_layout ns = Inr positions"
  shows "fst ` set positions \<subseteq> node_id ` set ns"
proof -
  from layout_Inr [OF assms] obtain root_node rest where
    r: "filter (\<lambda>n. level n = 0) ns = root_node # rest" and
    k: "fst ` set positions =
       insert (node_id root_node) (node_id ` {n \<in> set ns. level n = 1 \<or> level n = 2 \<or> level n = 3})"
    by (elim exE conjE)
  have "root_node \<in> set (filter (\<lambda>n. level n = 0) ns)"
    unfolding r by simp
  then have "root_node \<in> set ns"
    by simp
  with k show ?thesis
    by blast
qed

lemma layout_dangling_level1:
  "create_hierarchical_layout [mk ''project'' ''project/'' 0 ''root'' None,
                               mk ''claude'' ''.claude/'' 1 ''config'' (Some ''ghost'')] =
     Inr [(''project'', 0, 0), (''claude'', 0, - (7 / 2))]"
  by (simp add: create_hierarchical_layout_def place_root_and_level1_def mk_def start_of_def
      float_zero layout_literals)

section \<open>A parent id that is not in the node set\<close>

text \<open>
  Claim C1 says that the layout fails whenever some node's parent field names an id
  that no node has. The loop of level 1 never reads the field: with the root of the
  sample and its first child, the child's parent changed to an id that is absent, the
  layout returns, and places the child below the root.
\<close>

theorem dangling_parent_counterexample:
  "parent (mk ''claude'' ''.claude/'' 1 ''config'' (Some ''ghost'')) = Some ''ghost'' \<and>
   ''ghost'' \<notin> node_id ` set [mk ''project'' ''project/'' 0 ''root'' None,
                               mk ''claude'' ''.claude/'' 1 ''config'' (Some ''ghost'')] \<and>
   create_hierarchical_layout [mk ''project'' ''project/'' 0 ''root'' None,
                               mk ''claude'' ''.claude/'' 1 ''config'' (Some ''ghost'')] =
     Inr [(''project'', 0, 0), (''claude'', 0, - (7 / 2))]"
  using layout_dangling_level1 by (simp add: mk_def)

text \<open>
  Claim C1, amended. For every node list in which some node of level 2 or 3 has a
  parent field naming an id that no node of the list has, the layout fails with a lookup
  fault: \<^verbatim>\<open>IndexError\<close> when the list has no node of level 0, and
  \<^verbatim>\<open>KeyError\<close> otherwise.
\<close>

theorem dangling_parent_fails:
  assumes "n \<in> set ns" and "level n = 2 \<or> level n = 3" and "parent n = Some p"
    and "p \<notin> node_id ` set ns"
  shows "create_hierarchical_layout ns =
     (if filter (\<lambda>n. level n = 0) ns = [] then Inl IndexError else Inl KeyError)"
proof (cases "create_hierarchical_layout ns")
  case (Inl e)
  from layout_Inl_exact [OF Inl] Inl show ?thesis
    by simp
next
  case (Inr positions)
  from layout_Inr [OF Inr] have
    "\<forall>n \<in> set ns. level n = 2 \<or> level n = 3 \<longrightarrow>
        (\<exists>p. parent n = Some p \<and> p \<in> fst ` set positions)"
    by (elim exE conjE)
  with assms(1,2) obtain q where "parent n = Some q" and "q \<in> fst ` set positions"
    by blast
  with assms(3) layout_keys_are_ids [OF Inr] have "p \<in> node_id ` set ns"
    by auto
  with assms(4) show ?thesis
    by simp
qed

text \<open>
  The amended claim at the first three nodes of the sample's branch with the parent of
  \<^verbatim>\<open>specialists\<close> changed to an id that is absent: the list has a node of level 0
  and the layout raises \<^verbatim>\<open>KeyError\<close>.
\<close>

theorem dangling_parent_fails_witness:
  "mk ''specialists'' ''specialists/'' 2 ''config'' (Some ''ghost'') \<in>
     set [mk ''project'' ''project/'' 0 ''root'' None,
          mk ''claude'' ''.claude/'' 1 ''config'' (Some ''project''),
          mk ''specialists'' ''specialists/'' 2 ''config'' (Some ''ghost'')] \<and>
   level (mk ''specialists'' ''specialists/'' 2 ''config'' (Some ''ghost'')) = 2 \<and>
   parent (mk ''specialists'' ''specialists/'' 2 ''config'' (Some ''ghost'')) = Some ''ghost'' \<and>
   ''ghost'' \<notin> node_id ` set [mk ''project'' ''project/'' 0 ''root'' None,
          mk ''claude'' ''.claude/'' 1 ''config'' (Some ''project''),
          mk ''specialists'' ''specialists/'' 2 ''config'' (Some ''ghost'')] \<and>
   filter (\<lambda>n. level n = 0) [mk ''project'' ''project/'' 0 ''root'' None,
          mk ''claude'' ''.claude/'' 1 ''config'' (Some ''project''),
          mk ''specialists'' ''specialists/'' 2 ''config'' (Some ''ghost'')] \<noteq> [] \<and>
   create_hierarchical_layout [mk ''project'' ''project/'' 0 ''root'' None,
          mk ''claude'' ''.claude/'' 1 ''config'' (Some ''project''),
          mk ''specialists'' ''specialists/'' 2 ''config'' (Some ''ghost'')] = Inl KeyError"
proof -
  let ?n = "mk ''specialists'' ''specialists/'' 2 ''config'' (Some ''ghost'')"
  let ?ns = "[mk ''project'' ''project/'' 0 ''root'' None,
          mk ''claude'' ''.claude/'' 1 ''config'' (Some ''project''), ?n]"
  have n: "?n \<in> set ?ns"
    by simp
  have l2: "level ?n = 2"
    by (simp add: mk_def)
  then have l: "level ?n = 2 \<or> level ?n = 3" ..
  have p: "parent ?n = Some ''ghost''"
    by (simp add: mk_def)
  have g: "''ghost'' \<notin> node_id ` set ?ns"
    by (simp add: mk_def)
  have r: "filter (\<lambda>n. level n = 0) ?ns \<noteq> []"
    by (simp add: mk_def)
  from dangling_parent_fails [OF n l p g] r
  have f: "create_hierarchical_layout ?ns = Inl KeyError"
    by (simp only: if_False)
  from n l2 p g r f show ?thesis
    by (intro conjI)
qed

section \<open>Nodes of other levels\<close>

lemma filter_level:
  "l \<in> S \<Longrightarrow> filter (\<lambda>n. level n = l) (filter (\<lambda>n. level n \<in> S) ns) = filter (\<lambda>n. level n = l) ns"
  by (induction ns) auto

lemma layout_of_levels:
  assumes "{0, 1, 2, 3} \<subseteq> S"
  shows "create_hierarchical_layout (filter (\<lambda>n. level n \<in> S) ns) = create_hierarchical_layout ns"
proof -
  from assms have "0 \<in> S" "1 \<in> S" "2 \<in> S" "3 \<in> S"
    by auto
  note f = this [THEN filter_level]
  show ?thesis
    unfolding create_hierarchical_layout_def place_root_and_level1_def f ..
qed

text \<open>
  Claim C10. The layout positions only nodes of level 0, 1, 2 or 3: a node of any other
  level is invisible to it. Removing those nodes from the list changes neither the
  mapping returned nor the fault raised, and the keys of a mapping returned are the id
  of the first node of level 0 and the ids of the nodes of level 1, 2 and 3.
\<close>

theorem other_levels_omitted:
  "create_hierarchical_layout (filter (\<lambda>n. level n \<in> {0, 1, 2, 3}) ns) =
     create_hierarchical_layout ns \<and>
   (\<forall>positions. create_hierarchical_layout ns = Inr positions \<longrightarrow>
      (\<exists>root_node rest. filter (\<lambda>n. level n = 0) ns = root_node # rest \<and>
         fst ` set positions =
           insert (node_id root_node)
             (node_id ` {n \<in> set ns. level n = 1 \<or> level n = 2 \<or> level n = 3})))"
proof (intro conjI allI impI)
  show "create_hierarchical_layout (filter (\<lambda>n. level n \<in> {0, 1, 2, 3}) ns) =
     create_hierarchical_layout ns"
    by (rule layout_of_levels) simp
next
  fix positions
  assume "create_hierarchical_layout ns = Inr positions"
  from layout_Inr [OF this]
  show "\<exists>root_node rest. filter (\<lambda>n. level n = 0) ns = root_node # rest \<and>
         fst ` set positions =
           insert (node_id root_node)
             (node_id ` {n \<in> set ns. level n = 1 \<or> level n = 2 \<or> level n = 3})"
    by blast
qed

text \<open>
  The claim at a list with a node of level 4 and a node of level -1: the layout returns
  and the mapping has the ids of the other two nodes only.
\<close>

theorem other_levels_omitted_witness:
  "create_hierarchical_layout
     [mk ''project'' ''project/'' 0 ''root'' None,
      mk ''deep'' ''deep/'' 4 ''config'' (Some ''ghost''),
      mk ''claude'' ''.claude/'' 1 ''config'' (Some ''project''),
      mk ''above'' ''above/'' (- 1) ''config'' None] =
     Inr [(''project'', 0, 0), (''claude'', 0, - (7 / 2))] \<and>
   (\<exists>root_node rest.
      filter (\<lambda>n. level n = 0)
        [mk ''project'' ''project/'' 0 ''root'' None,
         mk ''deep'' ''deep/'' 4 ''config'' (Some ''ghost''),
         mk ''claude'' ''.claude/'' 1 ''config'' (Some ''project''),
         mk ''above'' ''above/'' (- 1) ''config'' None] = root_node # rest \<and>
      fst ` set [(''project'', 0 :: rat, 0 :: rat), (''claude'', 0, - (7 / 2))] =
        insert (node_id root_node)
          (node_id ` {n \<in> set [mk ''project'' ''project/'' 0 ''root'' None,
             mk ''deep'' ''deep/'' 4 ''config'' (Some ''ghost''),
             mk ''claude'' ''.claude/'' 1 ''config'' (Some ''project''),
             mk ''above'' ''above/'' (- 1) ''config'' None]. level n = 1 \<or> level n = 2 \<or> level n = 3}))"
proof -
  let ?ns = "[mk ''project'' ''project/'' 0 ''root'' None,
      mk ''deep'' ''deep/'' 4 ''config'' (Some ''ghost''),
      mk ''claude'' ''.claude/'' 1 ''config'' (Some ''project''),
      mk ''above'' ''above/'' (- 1) ''config'' None]"
  have e: "create_hierarchical_layout ?ns = Inr [(''project'', 0, 0), (''claude'', 0, - (7 / 2))]"
    by (simp add: create_hierarchical_layout_def place_root_and_level1_def mk_def start_of_def
      float_zero layout_literals)
  from e other_levels_omitted [of ?ns, THEN conjunct2, rule_format, OF e] show ?thesis
    by (intro conjI)
qed

section \<open>The placement of level 1\<close>

lemma place_level1_other:
  "key \<notin> node_id ` set l \<Longrightarrow> map_of (place_level1 start_x i l positions) key = map_of positions key"
  by (induction l arbitrary: i positions) (auto simp add: Let_def update_conv')

lemma place_level1_at:
  assumes "k < length l" and "node_id (l ! k) \<notin> node_id ` set (drop (Suc k) l)"
  shows "map_of (place_level1 start_x i l positions) (node_id (l ! k)) =
     Some (fadd start_x (fmul (float_of_int (int (i + k))) level1_spacing), level1_y)"
  using assms
proof (induction l arbitrary: i positions k)
  case Nil
  then show ?case
    by simp
next
  case (Cons n rest)
  show ?case
  proof (cases k)
    case 0
    with Cons.prems have "node_id n \<notin> node_id ` set rest"
      by simp
    with 0 show ?thesis
      by (simp add: Let_def place_level1_other update_conv')
  next
    case (Suc j)
    with Cons.prems have "j < length rest" "node_id (rest ! j) \<notin> node_id ` set (drop (Suc j) rest)"
      by simp_all
    from Cons.IH [OF this, of "Suc i"] Suc show ?thesis
      by (simp add: Let_def ac_simps)
  qed
qed

lemma place_level1_map:
  assumes "\<And>n. node_id (g n) = node_id n"
  shows "place_level1 start_x i (map g l) positions = place_level1 start_x i l positions"
  by (induction l arbitrary: i positions) (simp_all add: Let_def assms)

lemma filter_level_map:
  "filter (\<lambda>n. level n = l) (map (\<lambda>n. if level n = 1 then n\<lparr>parent := f n\<rparr> else n) ns) =
     (if l = 1 then map (\<lambda>n. n\<lparr>parent := f n\<rparr>) (filter (\<lambda>n. level n = l) ns)
      else filter (\<lambda>n. level n = l) ns)"
  by (induction ns) auto

lemma place_root_and_level1_map:
  "place_root_and_level1 (map (\<lambda>n. if level n = 1 then n\<lparr>parent := f n\<rparr> else n) ns) =
     place_root_and_level1 ns"
  unfolding place_root_and_level1_def filter_level_map
  by (simp add: Let_def place_level1_map [of "\<lambda>n. n\<lparr>parent := f n\<rparr>", simplified]
      split: list.split)

lemma layout_map:
  "create_hierarchical_layout (map (\<lambda>n. if level n = 1 then n\<lparr>parent := f n\<rparr> else n) ns) =
     create_hierarchical_layout ns"
  unfolding create_hierarchical_layout_def place_root_and_level1_map filter_level_map
  by simp

lemma place_child_update:
  assumes "place_child sp st lv n positions = Inr positions'"
  shows "\<exists>v. positions' = AList.update (node_id n) v positions"
  using assms
  by (auto simp add: place_child_def Let_def split: option.splits sum.splits)

lemma place_children_other:
  assumes "place_children sp st lv todo positions = Inr positions'"
    and "key \<notin> node_id ` set todo"
  shows "map_of positions' key = map_of positions key"
  using assms
proof (induction todo arbitrary: positions)
  case Nil
  then show ?case
    by simp
next
  case (Cons n rest)
  from Cons.prems(1) obtain mid where
    mid: "place_child sp st lv n positions = Inr mid" and
    rest: "place_children sp st lv rest mid = Inr positions'"
    by (cases "place_child sp st lv n positions") simp_all
  from place_child_update [OF mid] obtain v where "mid = AList.update (node_id n) v positions" ..
  with Cons.prems(2) have "map_of mid key = map_of positions key"
    by (simp add: update_conv')
  with Cons.IH [OF rest] Cons.prems(2) show ?case
    by simp
qed

lemma distinct_nth_drop:
  assumes "distinct (map f l)" and "k < length l"
  shows "f (l ! k) \<notin> f ` set (drop (Suc k) l)"
proof -
  from assms(2) have "l = take k l @ l ! k # drop (Suc k) l"
    by (rule id_take_nth_drop)
  then have "map f l = map f (take k l) @ f (l ! k) # map f (drop (Suc k) l)"
    by (metis list.simps(9) map_append)
  with assms(1) have "distinct (map f (take k l) @ f (l ! k) # map f (drop (Suc k) l))"
    by simp
  then show ?thesis
    by simp
qed

lemma level1_positions:
  assumes "create_hierarchical_layout ns = Inr positions" and "distinct (map node_id ns)"
    and "k < length (filter (\<lambda>n. level n = 1) ns)"
  shows "map_of positions (node_id (filter (\<lambda>n. level n = 1) ns ! k)) =
     Some (fadd (start_of (length (filter (\<lambda>n. level n = 1) ns)) level1_spacing)
             (fmul (float_of_int (int k)) level1_spacing), level1_y)"
proof -
  let ?l1 = "filter (\<lambda>n. level n = 1) ns"
  let ?key = "node_id (?l1 ! k)"
  from assms(1) obtain p1 where p1: "place_root_and_level1 ns = Inr p1"
    by (cases "place_root_and_level1 ns") (simp_all add: create_hierarchical_layout_def)
  from assms(1) p1 obtain p2 where
    p2: "place_children level2_spacing level2_step (filter (\<lambda>n. level n = 2) ns)
      (filter (\<lambda>n. level n = 2) ns) p1 = Inr p2"
    by (cases "place_children level2_spacing level2_step (filter (\<lambda>n. level n = 2) ns)
      (filter (\<lambda>n. level n = 2) ns) p1") (simp_all add: create_hierarchical_layout_def Let_def)
  from assms(1) p1 p2 have
    p3: "place_children level3_spacing level3_step (filter (\<lambda>n. level n = 3) ns)
      (filter (\<lambda>n. level n = 3) ns) p2 = Inr positions"
    by (simp add: create_hierarchical_layout_def Let_def)
  from assms(3) have "?l1 ! k \<in> set ?l1"
    by (rule nth_mem)
  then have m: "?l1 ! k \<in> set ns" and l: "level (?l1 ! k) = 1"
    by simp_all
  from assms(2) have inj: "inj_on node_id (set ns)"
    by (simp add: distinct_map)
  have other: "?key \<notin> node_id ` set (filter (\<lambda>n. level n = j) ns)" if "j \<noteq> 1" for j
  proof
    assume "?key \<in> node_id ` set (filter (\<lambda>n. level n = j) ns)"
    then obtain n where n: "n \<in> set ns" "level n = j" "node_id n = ?key"
      by auto
    with inj m have "n = ?l1 ! k"
      by (auto dest: inj_onD)
    with n l that show False
      by simp
  qed
  from assms(2) have "distinct (map node_id ?l1)"
    by (rule distinct_map_filter)
  from distinct_nth_drop [OF this assms(3)]
  have "?key \<notin> node_id ` set (drop (Suc k) ?l1)" .
  from place_level1_at [OF assms(3) this, of _ 0] p1
  have "map_of p1 ?key =
     Some (fadd (start_of (length ?l1) level1_spacing)
             (fmul (float_of_int (int k)) level1_spacing), level1_y)"
    by (auto simp add: place_root_and_level1_def Let_def split: list.splits)
  moreover have "map_of p2 ?key = map_of p1 ?key"
    by (rule place_children_other [OF p2]) (rule other, simp)
  moreover have "map_of positions ?key = map_of p2 ?key"
    by (rule place_children_other [OF p3]) (rule other, simp)
  ultimately show ?thesis
    by simp
qed

text \<open>
  Claim C9. The placement of level 1 never reads the parent field. Whatever the parent
  fields of the nodes of level 1 are changed to (absent, or an id no node has), the
  layout returns the same mapping or raises the same fault; when a node of level 0
  exists the placement of the root and of level 1 returns; and when the layout returns
  on a list with pairwise distinct ids, the node at index \<open>k\<close> among the nodes of
  level 1 is at \<^verbatim>\<open>(start_x + k * level1_spacing, -3.5)\<close>.
\<close>

theorem level1_ignores_parent:
  "create_hierarchical_layout (map (\<lambda>n. if level n = 1 then n\<lparr>parent := f n\<rparr> else n) ns) =
     create_hierarchical_layout ns \<and>
   (filter (\<lambda>n. level n = 0) ns \<noteq> [] \<longrightarrow>
      (\<exists>positions.
         place_root_and_level1 (map (\<lambda>n. if level n = 1 then n\<lparr>parent := f n\<rparr> else n) ns) =
           Inr positions)) \<and>
   (\<forall>positions k. create_hierarchical_layout ns = Inr positions \<longrightarrow>
      distinct (map node_id ns) \<longrightarrow> k < length (filter (\<lambda>n. level n = 1) ns) \<longrightarrow>
      map_of positions (node_id (filter (\<lambda>n. level n = 1) ns ! k)) =
        Some (fadd (start_of (length (filter (\<lambda>n. level n = 1) ns)) level1_spacing)
                (fmul (float_of_int (int k)) level1_spacing), level1_y))"
proof (intro conjI allI impI)
  show "create_hierarchical_layout (map (\<lambda>n. if level n = 1 then n\<lparr>parent := f n\<rparr> else n) ns) =
     create_hierarchical_layout ns"
    by (rule layout_map)
next
  assume "filter (\<lambda>n. level n = 0) ns \<noteq> []"
  then have "\<exists>positions. place_root_and_level1 ns = Inr positions"
    by (cases "place_root_and_level1 ns") (simp_all add: place_root_and_level1_Inl)
  then show "\<exists>positions.
      place_root_and_level1 (map (\<lambda>n. if level n = 1 then n\<lparr>parent := f n\<rparr> else n) ns) =
        Inr positions"
    by (simp only: place_root_and_level1_map)
next
  fix positions k
  assume "create_hierarchical_layout ns = Inr positions" and "distinct (map node_id ns)"
    and "k < length (filter (\<lambda>n. level n = 1) ns)"
  then show "map_of positions (node_id (filter (\<lambda>n. level n = 1) ns ! k)) =
        Some (fadd (start_of (length (filter (\<lambda>n. level n = 1) ns)) level1_spacing)
                (fmul (float_of_int (int k)) level1_spacing), level1_y)"
    by (rule level1_positions)
qed

text \<open>
  The claim at the root of the sample and its first child, the child's parent an id
  that is absent: the layout returns and the child is at \<^verbatim>\<open>(0, -3.5)\<close>.
\<close>

theorem level1_ignores_parent_witness:
  "filter (\<lambda>n. level n = 0) [mk ''project'' ''project/'' 0 ''root'' None,
      mk ''claude'' ''.claude/'' 1 ''config'' (Some ''ghost'')] \<noteq> [] \<and>
   distinct (map node_id [mk ''project'' ''project/'' 0 ''root'' None,
      mk ''claude'' ''.claude/'' 1 ''config'' (Some ''ghost'')]) \<and>
   create_hierarchical_layout [mk ''project'' ''project/'' 0 ''root'' None,
      mk ''claude'' ''.claude/'' 1 ''config'' (Some ''ghost'')] =
     Inr [(''project'', 0, 0), (''claude'', 0, - (7 / 2))] \<and>
   map_of [(''project'', 0 :: rat, 0 :: rat), (''claude'', 0, - (7 / 2))] ''claude'' =
     Some (fadd (start_of 1 level1_spacing) (fmul (float_of_int 0) level1_spacing), level1_y) \<and>
   (\<exists>positions. place_root_and_level1 [mk ''project'' ''project/'' 0 ''root'' None,
      mk ''claude'' ''.claude/'' 1 ''config'' (Some ''ghost'')] = Inr positions)"
proof -
  let ?ns = "[mk ''project'' ''project/'' 0 ''root'' None,
      mk ''claude'' ''.claude/'' 1 ''config'' (Some ''ghost'')]"
  have r: "filter (\<lambda>n. level n = 0) ?ns \<noteq> []"
    by (simp add: mk_def)
  have d: "distinct (map node_id ?ns)"
    by (simp add: mk_def)
  have k: "0 < length (filter (\<lambda>n. level n = 1) ?ns)"
    by (simp add: mk_def)
  note e = layout_dangling_level1
  note t = level1_ignores_parent [of "\<lambda>n. Some ''ghost''" ?ns]
  from t [THEN conjunct2, THEN conjunct2, rule_format, OF e d k]
  have a: "map_of [(''project'', 0 :: rat, 0 :: rat), (''claude'', 0, - (7 / 2))] ''claude'' =
     Some (fadd (start_of 1 level1_spacing) (fmul (float_of_int 0) level1_spacing), level1_y)"
    by (simp add: mk_def)
  from t [THEN conjunct2, THEN conjunct1, rule_format, OF r]
  have b: "\<exists>positions. place_root_and_level1 ?ns = Inr positions"
    by (simp add: mk_def)
  from r d e a b show ?thesis
    by (intro conjI)
qed

section \<open>The edges of the figure\<close>

lemma add_edges_result:
  assumes "add_edges ns node_positions fig = Inr fig'"
  shows "\<exists>new. fig' = fig @ new \<and>
     list_all2 (\<lambda>n t. \<exists>p pp pc. parent n = Some p \<and> map_of node_positions p = Some pp \<and>
         map_of node_positions (node_id n) = Some pc \<and> t = line_trace pp pc)
       (filter (\<lambda>n. parent n \<noteq> None) ns) new"
  using assms
proof (induction ns arbitrary: fig)
  case Nil
  then show ?case
    by simp
next
  case (Cons n rest)
  show ?case
  proof (cases "parent n")
    case None
    with Cons.prems have "add_edges rest node_positions fig = Inr fig'"
      by simp
    from Cons.IH [OF this] None show ?thesis
      by simp
  next
    case (Some p)
    from Cons.prems Some obtain pc where pc: "getitem node_positions (node_id n) = Inr pc"
      by (cases "getitem node_positions (node_id n)") simp_all
    from Cons.prems Some pc obtain pp where pp: "getitem node_positions p = Inr pp"
      by (cases "getitem node_positions p") simp_all
    from Cons.prems Some pc pp
    have "add_edges rest node_positions (fig @ [line_trace pp pc]) = Inr fig'"
      by simp
    from Cons.IH [OF this] obtain new where
      new: "fig' = (fig @ [line_trace pp pc]) @ new" and
      rest: "list_all2 (\<lambda>n t. \<exists>p pp pc. parent n = Some p \<and> map_of node_positions p = Some pp \<and>
         map_of node_positions (node_id n) = Some pc \<and> t = line_trace pp pc)
       (filter (\<lambda>n. parent n \<noteq> None) rest) new"
      by (elim exE conjE)
    from pc pp have "map_of node_positions (node_id n) = Some pc" "map_of node_positions p = Some pp"
      by (simp_all add: getitem_Inr)
    with Some have head: "\<exists>p' pp' pc'. parent n = Some p' \<and>
         map_of node_positions p' = Some pp' \<and>
         map_of node_positions (node_id n) = Some pc' \<and> line_trace pp pc = line_trace pp' pc'"
      by (intro exI conjI) (assumption | rule refl)+
    from Some have f: "filter (\<lambda>n. parent n \<noteq> None) (n # rest) =
        n # filter (\<lambda>n. parent n \<noteq> None) rest"
      by simp
    have "list_all2 (\<lambda>n t. \<exists>p pp pc. parent n = Some p \<and>
         map_of node_positions p = Some pp \<and>
         map_of node_positions (node_id n) = Some pc \<and> t = line_trace pp pc)
       (filter (\<lambda>n. parent n \<noteq> None) (n # rest)) (line_trace pp pc # new)"
      unfolding f using head rest by (rule list.rel_intros(2))
    with new show ?thesis
      by (intro exI [of _ "line_trace pp pc # new"]) simp
  qed
qed

lemma add_edges_returns:
  assumes "\<forall>n \<in> set ns. map_of node_positions (node_id n) \<noteq> None \<and>
     (\<forall>p. parent n = Some p \<longrightarrow> map_of node_positions p \<noteq> None)"
  shows "\<exists>fig'. add_edges ns node_positions fig = Inr fig'"
  using assms
proof (induction ns arbitrary: fig)
  case Nil
  then show ?case
    by simp
next
  case (Cons n rest)
  then show ?case
    by (cases "parent n") (auto simp add: getitem_def split: option.splits)
qed

lemma coords_of_returns:
  assumes "\<forall>n \<in> set l. map_of node_positions (node_id n) \<noteq> None"
  shows "\<exists>ps. coords_of node_positions l = Inr ps"
  using assms
  by (induction l) (auto simp add: getitem_def split: option.splits)

lemma add_nodes_returns:
  assumes "\<forall>n \<in> set ns. map_of node_positions (node_id n) \<noteq> None"
  shows "\<exists>fig'. add_nodes cs ns node_positions fig = Inr fig'"
proof (induction cs arbitrary: fig)
  case Nil
  then show ?case
    by simp
next
  case (Cons c rest)
  obtain cat col where c: "c = (cat, col)"
    by (cases c)
  from assms have "\<forall>n \<in> set (filter (\<lambda>n. category n = cat) ns). map_of node_positions (node_id n) \<noteq> None"
    by simp
  from coords_of_returns [OF this] obtain ps where
    "coords_of node_positions (filter (\<lambda>n. category n = cat) ns) = Inr ps" ..
  with Cons.IH c show ?case
    by (simp add: Let_def)
qed

lemma add_nodes_result:
  assumes "add_nodes cs ns node_positions fig = Inr fig'"
  shows "\<exists>new. fig' = fig @ new \<and> (\<forall>t \<in> set new. trace_mode t = ''markers+text'')"
  using assms
proof (induction cs arbitrary: fig)
  case Nil
  then show ?case
    by simp
next
  case (Cons c rest)
  obtain cat col where c: "c = (cat, col)"
    by (cases c)
  show ?case
  proof (cases "filter (\<lambda>n. category n = cat) ns = []")
    case True
    with Cons.prems c have "add_nodes rest ns node_positions fig = Inr fig'"
      by simp
    from Cons.IH [OF this] show ?thesis .
  next
    case False
    with Cons.prems c obtain ps where
      ps: "coords_of node_positions (filter (\<lambda>n. category n = cat) ns) = Inr ps"
      by (cases "coords_of node_positions (filter (\<lambda>n. category n = cat) ns)")
        (simp_all add: Let_def)
    let ?t = "\<lparr>trace_x = map fst ps, trace_y = map snd ps, trace_mode = ''markers+text'',
        trace_text = map label (filter (\<lambda>n. category n = cat) ns),
        marker_size = map marker_size_of (filter (\<lambda>n. category n = cat) ns),
        marker_color = col, trace_name = title cat\<rparr>"
    from Cons.prems c False ps have "add_nodes rest ns node_positions (fig @ [?t]) = Inr fig'"
      by (simp add: Let_def)
    from Cons.IH [OF this] obtain new where
      "fig' = (fig @ [?t]) @ new" and "\<forall>t \<in> set new. trace_mode t = ''markers+text''"
      by (elim exE conjE)
    then show ?thesis
      by (intro exI [of _ "?t # new"]) simp
  qed
qed

lemma sample_positioned:
  "list_all (\<lambda>n. (case map_of sample_positions (node_id n) of None \<Rightarrow> False | Some c \<Rightarrow> True) \<and>
      (case parent n of None \<Rightarrow> True
       | Some p \<Rightarrow> (case map_of sample_positions p of None \<Rightarrow> False | Some c \<Rightarrow> True))) nodes"
  by (simp add: nodes_def mk_def sample_positions_def)

lemma list_all2_right:
  "list_all2 (\<lambda>a b. Q b) xs ys \<Longrightarrow> \<forall>b \<in> set ys. Q b"
  by (induction rule: list_all2_induct) simp_all

text \<open>
  Claim C8. The rendering of the sample draws exactly one line segment per parent-child
  pair: the traces of mode \<^verbatim>\<open>lines\<close> of the figure are as many as the nodes that
  carry a parent field (26), in the order of the node list, and the trace of a node
  runs from its parent's computed position to its own: its \<^verbatim>\<open>x\<close> is the parent's x
  and the node's x, its \<^verbatim>\<open>y\<close> the parent's y and the node's y.
\<close>

theorem one_line_per_edge:
  "\<exists>fig. render nodes = Inr fig \<and>
     length (filter (\<lambda>t. trace_mode t = ''lines'') fig) =
       length (filter (\<lambda>n. parent n \<noteq> None) nodes) \<and>
     length (filter (\<lambda>n. parent n \<noteq> None) nodes) = 26 \<and>
     list_all2 (\<lambda>n t. \<exists>p pp pc. parent n = Some p \<and> pos_of nodes p = Some pp \<and>
         pos_of nodes (node_id n) = Some pc \<and>
         trace_x t = [fst pp, fst pc] \<and> trace_y t = [snd pp, snd pc] \<and>
         trace_mode t = ''lines'')
       (filter (\<lambda>n. parent n \<noteq> None) nodes) (filter (\<lambda>t. trace_mode t = ''lines'') fig)"
proof -
  let ?R = "\<lambda>n t. \<exists>p pp pc. parent n = Some p \<and> pos_of nodes p = Some pp \<and>
         pos_of nodes (node_id n) = Some pc \<and> t = line_trace pp pc"
  let ?S = "\<lambda>n t. \<exists>p pp pc. parent n = Some p \<and> pos_of nodes p = Some pp \<and>
         pos_of nodes (node_id n) = Some pc \<and>
         trace_x t = [fst pp, fst pc] \<and> trace_y t = [snd pp, snd pc] \<and>
         trace_mode t = ''lines''"
  have pos: "\<forall>n \<in> set nodes. map_of sample_positions (node_id n) \<noteq> None \<and>
     (\<forall>p. parent n = Some p \<longrightarrow> map_of sample_positions p \<noteq> None)"
  proof (intro ballI conjI allI impI)
    fix n
    assume "n \<in> set nodes"
    with sample_positioned
    have c: "(case map_of sample_positions (node_id n) of None \<Rightarrow> False | Some c \<Rightarrow> True) \<and>
      (case parent n of None \<Rightarrow> True
       | Some p \<Rightarrow> (case map_of sample_positions p of None \<Rightarrow> False | Some c \<Rightarrow> True))"
      unfolding list_all_iff by blast
    then show "map_of sample_positions (node_id n) \<noteq> None"
      by (simp split: option.splits)
    fix p
    assume "parent n = Some p"
    with c show "map_of sample_positions p \<noteq> None"
      by (simp split: option.splits)
  qed
  from add_edges_returns [OF pos] obtain edges where
    edges: "add_edges nodes sample_positions [] = Inr edges" ..
  from pos have "\<forall>n \<in> set nodes. map_of sample_positions (node_id n) \<noteq> None"
    by blast
  from add_nodes_returns [OF this] obtain fig where
    fig: "add_nodes colors nodes sample_positions edges = Inr fig" ..
  from edges fig have r: "render nodes = Inr fig"
    by (simp add: render_def layout_nodes)
  from add_edges_result [OF edges]
  have "list_all2 ?R (filter (\<lambda>n. parent n \<noteq> None) nodes) edges"
    unfolding pos_of_nodes by simp
  then have e: "list_all2 ?S (filter (\<lambda>n. parent n \<noteq> None) nodes) edges"
  proof (rule list_all2_mono)
    fix n t
    assume "\<exists>p pp pc. parent n = Some p \<and> pos_of nodes p = Some pp \<and>
         pos_of nodes (node_id n) = Some pc \<and> t = line_trace pp pc"
    then obtain p pp pc where "parent n = Some p" "pos_of nodes p = Some pp"
      "pos_of nodes (node_id n) = Some pc" and t: "t = line_trace pp pc"
      by (elim exE conjE)
    moreover from t have "trace_x t = [fst pp, fst pc]" "trace_y t = [snd pp, snd pc]"
      "trace_mode t = ''lines''"
      by (simp_all add: line_trace_def)
    ultimately show "\<exists>p pp pc. parent n = Some p \<and> pos_of nodes p = Some pp \<and>
         pos_of nodes (node_id n) = Some pc \<and>
         trace_x t = [fst pp, fst pc] \<and> trace_y t = [snd pp, snd pc] \<and>
         trace_mode t = ''lines''"
      by (intro exI conjI)
  qed
  then have "list_all2 (\<lambda>n t. trace_mode t = ''lines'') (filter (\<lambda>n. parent n \<noteq> None) nodes) edges"
    by (rule list_all2_mono) (elim exE conjE)
  then have m: "\<forall>t \<in> set edges. trace_mode t = ''lines''"
    by (rule list_all2_right)
  from add_nodes_result [OF fig] obtain new where
    new: "fig = edges @ new" and "\<forall>t \<in> set new. trace_mode t = ''markers+text''"
    by (elim exE conjE)
  then have "\<forall>t \<in> set new. trace_mode t \<noteq> ''lines''"
    by simp
  with m new have f: "filter (\<lambda>t. trace_mode t = ''lines'') fig = edges"
    by simp
  have n: "length (filter (\<lambda>n. parent n \<noteq> None) nodes) = 26"
    by (simp add: nodes_def mk_def)
  from e have "length (filter (\<lambda>n. parent n \<noteq> None) nodes) = length edges"
    by (rule list_all2_lengthD)
  with r e n show ?thesis
    unfolding f [symmetric] by (intro exI [of _ fig] conjI) simp_all
qed

section \<open>The report\<close>

lemma upper_names:
  "upper ''claude_flow'' = ''CLAUDE_FLOW''"
  "upper ''superclaude'' = ''SUPERCLAUDE''"
  "upper ''best_agents'' = ''BEST_AGENTS''"
  by (simp_all add: upper_def upper_char_def lower_letters_def upper_letters_def)

lemma lines_of_line:
  "newline \<notin> set l \<Longrightarrow> lines_of (l @ newline # rest) = l # lines_of rest"
  by (induction l) auto

lemma print_strengths_text:
  "print_strengths ss out = out @ concat (map (\<lambda>s. ''  '' @ bullet @ '' '' @ s @ [newline]) ss)"
  by (induction ss arbitrary: out) (simp_all add: println_def)

lemma lines_of_strengths:
  assumes "\<forall>s \<in> set ss. newline \<notin> set s"
  shows "lines_of (concat (map (\<lambda>s. ''  '' @ bullet @ '' '' @ s @ [newline]) ss) @ rest) =
     map (\<lambda>s. ''  '' @ bullet @ '' '' @ s) ss @ lines_of rest"
  using assms
proof (induction ss)
  case Nil
  then show ?case
    by simp
next
  case (Cons s ss)
  then have "newline \<notin> set (''  '' @ bullet @ '' '' @ s)"
    by (simp add: bullet_def newline_def)
  from lines_of_line [OF this] Cons show ?case
    by simp
qed

lemma print_analysis_text:
  assumes "\<forall>e \<in> set m. map_of (structure (snd e)) ''organization'' \<noteq> None"
  shows "print_analysis m out =
     (out @ concat (map (\<lambda>(system, d).
        [newline] @ upper system @ '' ANALYSIS:'' @ [newline] @ ''Strengths:'' @ [newline] @
        concat (map (\<lambda>s. ''  '' @ bullet @ '' '' @ s @ [newline]) (strengths d)) @
        ''Organization: '' @
        (case map_of (structure d) ''organization'' of None \<Rightarrow> [] | Some v \<Rightarrow> py_str v) @
        [newline]) m), None)"
  using assms
proof (induction m arbitrary: out)
  case Nil
  then show ?case
    by simp
next
  case (Cons e rest)
  obtain system d where e: "e = (system, d)"
    by (cases e)
  from Cons.prems e obtain v where v: "map_of (structure d) ''organization'' = Some v"
    by auto
  from Cons.prems have "\<forall>e \<in> set rest. map_of (structure (snd e)) ''organization'' \<noteq> None"
    by simp
  note ih = Cons.IH [OF this]
  show ?case
    unfolding e
    by (simp add: Let_def getitem_def v ih print_strengths_text println_def)
qed

lemma lines_of_blocks:
  assumes "\<forall>e \<in> set m. newline \<notin> set (upper (fst e)) \<and>
      (\<forall>s \<in> set (strengths (snd e)). newline \<notin> set s) \<and>
      newline \<notin> set (case map_of (structure (snd e)) ''organization'' of
                        None \<Rightarrow> [] | Some v \<Rightarrow> py_str v)"
  shows "lines_of (concat (map (\<lambda>(system, d).
        [newline] @ upper system @ '' ANALYSIS:'' @ [newline] @ ''Strengths:'' @ [newline] @
        concat (map (\<lambda>s. ''  '' @ bullet @ '' '' @ s @ [newline]) (strengths d)) @
        ''Organization: '' @
        (case map_of (structure d) ''organization'' of None \<Rightarrow> [] | Some v \<Rightarrow> py_str v) @
        [newline]) m)) =
     concat (map (\<lambda>(system, d).
        [[], upper system @ '' ANALYSIS:'', ''Strengths:''] @
        map (\<lambda>s. ''  '' @ bullet @ '' '' @ s) (strengths d) @
        [''Organization: '' @
         (case map_of (structure d) ''organization'' of None \<Rightarrow> [] | Some v \<Rightarrow> py_str v)]) m)"
  using assms
proof (induction m)
  case Nil
  then show ?case
    by simp
next
  case (Cons e rest)
  obtain system d where e: "e = (system, d)"
    by (cases e)
  let ?org = "case map_of (structure d) ''organization'' of None \<Rightarrow> [] | Some v \<Rightarrow> py_str v"
  let ?tail = "concat (map (\<lambda>(system, d).
        [newline] @ upper system @ '' ANALYSIS:'' @ [newline] @ ''Strengths:'' @ [newline] @
        concat (map (\<lambda>s. ''  '' @ bullet @ '' '' @ s @ [newline]) (strengths d)) @
        ''Organization: '' @
        (case map_of (structure d) ''organization'' of None \<Rightarrow> [] | Some v \<Rightarrow> py_str v) @
        [newline]) rest)"
  from Cons.prems e have
    h: "newline \<notin> set (upper system @ '' ANALYSIS:'')" and
    t: "newline \<notin> set ''Strengths:''" and
    s: "\<forall>s \<in> set (strengths d). newline \<notin> set s" and
    o: "newline \<notin> set (''Organization: '' @ ?org)"
    by (simp_all add: newline_def)
  let ?H = "upper system @ '' ANALYSIS:''"
  let ?S = "''Strengths:''"
  let ?B = "concat (map (\<lambda>s. ''  '' @ bullet @ '' '' @ s @ [newline]) (strengths d))"
  let ?O = "''Organization: '' @ ?org"
  have "[newline] @ upper system @ '' ANALYSIS:'' @ [newline] @ ''Strengths:'' @ [newline] @
        ?B @ ''Organization: '' @ ?org @ [newline] @ ?tail =
      newline # (?H @ newline # (?S @ newline # (?B @ (?O @ newline # ?tail))))"
    by simp
  then have "lines_of ([newline] @ upper system @ '' ANALYSIS:'' @ [newline] @ ''Strengths:'' @
        [newline] @ ?B @ ''Organization: '' @ ?org @ [newline] @ ?tail) =
      lines_of (newline # (?H @ newline # (?S @ newline # (?B @ (?O @ newline # ?tail)))))"
    by (rule arg_cong)
  also have "\<dots> = [] # lines_of (?H @ newline # (?S @ newline # (?B @ (?O @ newline # ?tail))))"
    by simp
  also have "lines_of (?H @ newline # (?S @ newline # (?B @ (?O @ newline # ?tail)))) =
      ?H # lines_of (?S @ newline # (?B @ (?O @ newline # ?tail)))"
    by (rule lines_of_line [OF h])
  also have "lines_of (?S @ newline # (?B @ (?O @ newline # ?tail))) =
      ?S # lines_of (?B @ (?O @ newline # ?tail))"
    by (rule lines_of_line [OF t])
  also have "lines_of (?B @ (?O @ newline # ?tail)) =
      map (\<lambda>s. ''  '' @ bullet @ '' '' @ s) (strengths d) @ lines_of (?O @ newline # ?tail)"
    by (rule lines_of_strengths [OF s])
  also have "lines_of (?O @ newline # ?tail) = ?O # lines_of ?tail"
    by (rule lines_of_line [OF o])
  finally have "lines_of ([newline] @ upper system @ '' ANALYSIS:'' @ [newline] @ ''Strengths:'' @
        [newline] @ ?B @ ''Organization: '' @ ?org @ [newline] @ ?tail) =
      [] # ?H # ?S # map (\<lambda>s. ''  '' @ bullet @ '' '' @ s) (strengths d) @ ?O # lines_of ?tail" .
  with Cons e show ?case
    by simp
qed

lemma sample_report_clean:
  "\<forall>e \<in> set systems_analysis. newline \<notin> set (upper (fst e)) \<and>
      (\<forall>s \<in> set (strengths (snd e)). newline \<notin> set s) \<and>
      newline \<notin> set (case map_of (structure (snd e)) ''organization'' of
                        None \<Rightarrow> [] | Some v \<Rightarrow> py_str v)"
  by (simp add: systems_analysis_def upper_names newline_def)

lemma sample_organizations:
  "map (\<lambda>(system, d). map_of (structure d) ''organization'') systems_analysis =
     [Some (Str ''Command-driven with mode specialization''),
      Some (Str ''Persona-driven with flag inheritance''),
      Some (Str ''Hierarchical with delegation'')]"
  by (simp add: systems_analysis_def)

text \<open>
  Claim C6. Printing the fixed \<^verbatim>\<open>systems_analysis\<close> mapping writes, for every entry
  in the mapping's order, one header line (the upper-cased name and \<^verbatim>\<open> ANALYSIS:\<close>),
  then one bullet line per string of the entry's strengths, in the order of the list,
  then one organization line. The header follows an empty line (the f-string starts
  with a newline) and is followed by the line \<^verbatim>\<open>Strengths:\<close>; each header occurs
  exactly once in the output, and the run raises no fault.
\<close>

theorem report_lines:
  "snd run_script = None \<and>
   lines_of (fst run_script) =
     concat (map (\<lambda>(system, d).
        [[], upper system @ '' ANALYSIS:'', ''Strengths:''] @
        map (\<lambda>s. ''  '' @ bullet @ '' '' @ s) (strengths d) @
        [''Organization: '' @
         (case map_of (structure d) ''organization'' of None \<Rightarrow> [] | Some v \<Rightarrow> py_str v)])
       systems_analysis) \<and>
   map (\<lambda>(system, d). map_of (structure d) ''organization'') systems_analysis =
     [Some (Str ''Command-driven with mode specialization''),
      Some (Str ''Persona-driven with flag inheritance''),
      Some (Str ''Hierarchical with delegation'')] \<and>
   map (\<lambda>(system, d). upper system) systems_analysis =
     [''CLAUDE_FLOW'', ''SUPERCLAUDE'', ''BEST_AGENTS''] \<and>
   map (\<lambda>(system, d). count_list (lines_of (fst run_script)) (upper system @ '' ANALYSIS:''))
     systems_analysis = [1, 1, 1]"
proof -
  from sample_report_clean
  have "\<forall>e \<in> set systems_analysis. map_of (structure (snd e)) ''organization'' \<noteq> None"
    by (simp add: systems_analysis_def)
  then have r: "run_script = ([] @ concat (map (\<lambda>(system, d).
        [newline] @ upper system @ '' ANALYSIS:'' @ [newline] @ ''Strengths:'' @ [newline] @
        concat (map (\<lambda>s. ''  '' @ bullet @ '' '' @ s @ [newline]) (strengths d)) @
        ''Organization: '' @
        (case map_of (structure d) ''organization'' of None \<Rightarrow> [] | Some v \<Rightarrow> py_str v) @
        [newline]) systems_analysis), None)"
    unfolding run_script_def by (rule print_analysis_text)
  have n: "snd run_script = None"
    unfolding r by (rule snd_conv)
  have l: "lines_of (fst run_script) =
     concat (map (\<lambda>(system, d).
        [[], upper system @ '' ANALYSIS:'', ''Strengths:''] @
        map (\<lambda>s. ''  '' @ bullet @ '' '' @ s) (strengths d) @
        [''Organization: '' @
         (case map_of (structure d) ''organization'' of None \<Rightarrow> [] | Some v \<Rightarrow> py_str v)])
       systems_analysis)"
    unfolding r fst_conv append_Nil by (rule lines_of_blocks [OF sample_report_clean])
  have u: "map (\<lambda>(system, d). upper system) systems_analysis =
     [''CLAUDE_FLOW'', ''SUPERCLAUDE'', ''BEST_AGENTS'']"
    by (simp add: systems_analysis_def upper_names)
  have c: "map (\<lambda>(system, d). count_list (lines_of (fst run_script)) (upper system @ '' ANALYSIS:''))
     systems_analysis = [1, 1, 1]"
    unfolding l by (simp add: systems_analysis_def upper_names bullet_def)
  from n l sample_organizations u c show ?thesis
    by (intro conjI)
qed

end
